theory Spec2Isabelle
  imports Complex_Main "HOL-Library.AList" "HOL-Library.Multiset"
begin

section \<open>Out-of-distribution detection datasets\<close>

text \<open>
  A shallow embedding of \<^verbatim>\<open>robustness_metrics/datasets/ood_detection.py\<close>.
  The module is written against TensorFlow's \<^verbatim>\<open>tf.data\<close> interface; the part of that
  interface the module calls (\<^verbatim>\<open>element_spec\<close>, \<^verbatim>\<open>Dataset.map\<close>,
  \<^verbatim>\<open>Dataset.concatenate\<close>, \<^verbatim>\<open>tf.ones_like\<close>, \<^verbatim>\<open>tf.zeros_like\<close>) is modelled
  first, the module's own functions after it, under their own names.
\<close>

subsection \<open>Errors\<close>

text \<open>
  The exceptions of the embedding. \<open>KeyError\<close> is Python's, raised by \<^verbatim>\<open>d[k]\<close> on a
  dictionary without the key \<open>k\<close>. \<open>AttributeError\<close> is Python's, raised by
  \<^verbatim>\<open>spec.keys()\<close> on an object that is not a dictionary. \<open>TypeError\<close> stands for the
  refusal of an operation on a value of the wrong kind: subscripting a tensor with a
  string, converting a dictionary to a tensor, concatenating datasets of different
  element types. \<open>InvalidArgumentError\<close> is TensorFlow's: \<^verbatim>\<open>Dataset.map\<close> raises it for
  a function that returns no tensor at all, and iteration raises it for an element
  that does not have the components its dataset declares. \<open>SchemaMismatch\<close> is the
  error the design document names for an empty field intersection; no statement of
  the module raises it, and it is here only so that this can be stated.
\<close>

datatype error =
    KeyError string
  | TypeError
  | AttributeError
  | InvalidArgumentError
  | SchemaMismatch

subsection \<open>Tensors, tensor specifications and nested structures\<close>

text \<open>
  The numeric element types. \<^verbatim>\<open>tf.ones_like\<close> and \<^verbatim>\<open>tf.zeros_like\<close> are defined on
  all of them.
\<close>

datatype dtype = DT_uint8 | DT_int32 | DT_int64 | DT_float32 | DT_float64

text \<open>
  A concrete tensor: its shape, its element type and its entries in row-major order.
  The entries are of any type with a zero and a one, so that nothing below rests on
  how a number is represented.
\<close>

record 'a tensor =
  shape :: "nat list"
  dtype :: dtype
  elems :: "'a list"

text \<open>
  A static shape: \<open>None\<close> is a shape of unknown rank, \<open>Some ds\<close> a shape of known
  rank whose dimensions may each be unknown. A \<^verbatim>\<open>TensorSpec\<close> is a static shape and
  an element type.
\<close>

type_synonym static_shape = "nat option list option"

record tensor_spec =
  spec_shape :: static_shape
  spec_dtype :: dtype

text \<open>
  A dataset element, and likewise an \<^verbatim>\<open>element_spec\<close>, is a tensor (a specification)
  or a Python dictionary from field names to such structures. A dictionary is an
  association list, read with \<^const>\<open>map_of\<close>.
\<close>

datatype 'a nest = Leaf 'a | Dict "(string \<times> 'a nest) list"

text \<open>\<^verbatim>\<open>d[k]\<close> and \<^verbatim>\<open>d[k] = v\<close> of Python, on a structure.\<close>

fun getitem :: "'a nest \<Rightarrow> string \<Rightarrow> error + 'a nest" where
  "getitem (Leaf t) k = Inl TypeError"
| "getitem (Dict kvs) k =
     (case map_of kvs k of None \<Rightarrow> Inl (KeyError k) | Some v \<Rightarrow> Inr v)"

fun setitem :: "'a nest \<Rightarrow> string \<Rightarrow> 'a nest \<Rightarrow> error + 'a nest" where
  "setitem (Leaf t) k v = Inl TypeError"
| "setitem (Dict kvs) k v = Inr (Dict (AList.update k v kvs))"

text \<open>The sub-structure at a path of field names.\<close>

fun lookup :: "'a nest \<Rightarrow> string list \<Rightarrow> 'a nest option" where
  "lookup n [] = Some n"
| "lookup (Leaf t) (k # p) = None"
| "lookup (Dict kvs) (k # p) =
     (case map_of kvs k of None \<Rightarrow> None | Some v \<Rightarrow> lookup v p)"

text \<open>The tensors of a structure, one after the other: \<^verbatim>\<open>nest.flatten\<close>.\<close>

fun flatten :: "'a nest \<Rightarrow> 'a list" where
  "flatten (Leaf t) = [t]"
| "flatten (Dict kvs) = concat (map (\<lambda>(k, v). flatten v) kvs)"

text \<open>
  The field names of the dictionary at a path: the field set of the structure at that
  nesting level. It is empty where the path leads to a tensor or nowhere.
\<close>

definition keys_at :: "'a nest \<Rightarrow> string list \<Rightarrow> string set" where
  "keys_at n p = (case lookup n p of Some (Dict kvs) \<Rightarrow> fst ` set kvs | _ \<Rightarrow> {})"

text \<open>The structure of a nest without its leaves: which fields it has, at every depth.\<close>

abbreviation skel :: "'a nest \<Rightarrow> unit nest" where
  "skel \<equiv> map_nest (\<lambda>_. ())"

subsection \<open>Symbolic tensors\<close>

text \<open>
  \<^verbatim>\<open>Dataset.map(f)\<close> runs the Python function \<open>f\<close> once, when the dataset is built,
  on symbolic tensors that stand for the components of an element; what \<open>f\<close> returns
  is a structure of symbolic tensors, evaluated later on every element. A symbolic
  tensor is the component of the element at a path, or the result of one of the two
  TensorFlow operations the module applies.
\<close>

datatype sym =
    Component "string list" tensor_spec
  | OnesLike sym
  | ZerosLike sym

text \<open>Both operations keep the static shape and the element type of their argument.\<close>

fun sym_spec :: "sym \<Rightarrow> tensor_spec" where
  "sym_spec (Component p s) = s"
| "sym_spec (OnesLike t) = sym_spec t"
| "sym_spec (ZerosLike t) = sym_spec t"

text \<open>
  \<^verbatim>\<open>tf.ones_like\<close> and \<^verbatim>\<open>tf.zeros_like\<close> as Python calls them while a function is
  traced: a dictionary is not convertible to a tensor.
\<close>

fun tf_ones_like :: "sym nest \<Rightarrow> error + sym nest" where
  "tf_ones_like (Leaf t) = Inr (Leaf (OnesLike t))"
| "tf_ones_like (Dict kvs) = Inl TypeError"

fun tf_zeros_like :: "sym nest \<Rightarrow> error + sym nest" where
  "tf_zeros_like (Leaf t) = Inr (Leaf (ZerosLike t))"
| "tf_zeros_like (Dict kvs) = Inl TypeError"

text \<open>The two operations on a concrete tensor: same shape and type, every entry 1 (0).\<close>

definition ones_like :: "'a::one tensor \<Rightarrow> 'a tensor" where
  "ones_like t = \<lparr>shape = shape t, dtype = dtype t, elems = replicate (prod_list (shape t)) 1\<rparr>"

definition zeros_like :: "'a::zero tensor \<Rightarrow> 'a tensor" where
  "zeros_like t = \<lparr>shape = shape t, dtype = dtype t, elems = replicate (prod_list (shape t)) 0\<rparr>"

text \<open>
  The value of a symbolic tensor on an element \<open>x\<close>. An element without the component
  a symbolic tensor reads does not belong to the dataset; iterating over it fails.
\<close>

fun eval :: "'a::{zero,one} tensor nest \<Rightarrow> sym \<Rightarrow> error + 'a tensor" where
  "eval x (Component p s) =
     (case lookup x p of Some (Leaf t) \<Rightarrow> Inr t | _ \<Rightarrow> Inl InvalidArgumentError)"
| "eval x (OnesLike u) = (case eval x u of Inl e \<Rightarrow> Inl e | Inr t \<Rightarrow> Inr (ones_like t))"
| "eval x (ZerosLike u) = (case eval x u of Inl e \<Rightarrow> Inl e | Inr t \<Rightarrow> Inr (zeros_like t))"

text \<open>The value of a structure of symbolic tensors on an element: the traced function, run.\<close>

fun run :: "sym nest \<Rightarrow> 'a::{zero,one} tensor nest \<Rightarrow> error + 'a tensor nest"
and run_items ::
  "(string \<times> sym nest) list \<Rightarrow> 'a tensor nest \<Rightarrow> error + (string \<times> 'a tensor nest) list"
where
  "run (Leaf s) x = (case eval x s of Inl e \<Rightarrow> Inl e | Inr t \<Rightarrow> Inr (Leaf t))"
| "run (Dict kvs) x = (case run_items kvs x of Inl e \<Rightarrow> Inl e | Inr r \<Rightarrow> Inr (Dict r))"
| "run_items [] x = Inr []"
| "run_items ((k, g) # kvs) x =
     (case run g x of
        Inl e \<Rightarrow> Inl e
      | Inr v \<Rightarrow> (case run_items kvs x of Inl e \<Rightarrow> Inl e | Inr r \<Rightarrow> Inr ((k, v) # r)))"

text \<open>
  The symbolic element a function is traced on: at every tensor of the
  \<^verbatim>\<open>element_spec\<close>, the component at that path.
\<close>

fun placeholders :: "string list \<Rightarrow> tensor_spec nest \<Rightarrow> sym nest" where
  "placeholders p (Leaf s) = Leaf (Component p s)"
| "placeholders p (Dict kvs) = Dict (map (\<lambda>(k, v). (k, placeholders (p @ [k]) v)) kvs)"

fun specs_of :: "sym nest \<Rightarrow> tensor_spec nest" where
  "specs_of (Leaf s) = Leaf (sym_spec s)"
| "specs_of (Dict kvs) = Dict (map (\<lambda>(k, v). (k, specs_of v)) kvs)"

subsection \<open>Datasets\<close>

text \<open>
  A \<^verbatim>\<open>tf.data.Dataset\<close> is a pipeline: a source with its \<^verbatim>\<open>element_spec\<close> and its
  elements, the image of a dataset under a traced function, or the concatenation of
  two datasets (with the \<^verbatim>\<open>element_spec\<close> computed when it was built). The elements
  of a source are finite lists here.
\<close>

datatype 'a dataset =
    Source "tensor_spec nest" "'a tensor nest list"
  | MapDataset "sym nest" "'a dataset"
  | ConcatenateDataset "tensor_spec nest" "'a dataset" "'a dataset"

fun element_spec :: "'a dataset \<Rightarrow> tensor_spec nest" where
  "element_spec (Source s xs) = s"
| "element_spec (MapDataset g d) = specs_of g"
| "element_spec (ConcatenateDataset s d1 d2) = s"

text \<open>What one step of iteration gives: an element, or the error raised in computing it.\<close>

type_synonym 'a pull = "error + 'a tensor nest"

definition apply_graph :: "sym nest \<Rightarrow> 'a::{zero,one} pull \<Rightarrow> 'a pull" where
  "apply_graph g r = (case r of Inl e \<Rightarrow> Inl e | Inr x \<Rightarrow> run g x)"

text \<open>
  The iterator. A dataset value is also the state of an iteration over it: \<open>get_next\<close>
  returns the next pull and the rest, or \<open>None\<close> at the end. A concatenation asks its
  second dataset only when the first has nothing left.
\<close>

fun get_next :: "'a::{zero,one} dataset \<Rightarrow> ('a pull \<times> 'a dataset) option" where
  "get_next (Source s []) = None"
| "get_next (Source s (x # xs)) = Some (Inr x, Source s xs)"
| "get_next (MapDataset g d) =
     (case get_next d of
        None \<Rightarrow> None
      | Some (r, d') \<Rightarrow> Some (apply_graph g r, MapDataset g d'))"
| "get_next (ConcatenateDataset s d1 d2) =
     (case get_next d1 of
        Some (r, d1') \<Rightarrow> Some (r, ConcatenateDataset s d1' d2)
      | None \<Rightarrow>
          (case get_next d2 of
             Some (r, d2') \<Rightarrow> Some (r, ConcatenateDataset s d1 d2')
           | None \<Rightarrow> None))"

text \<open>The first \<open>n\<close> pulls of an iteration and the state it is left in.\<close>

fun take_n :: "nat \<Rightarrow> 'a::{zero,one} dataset \<Rightarrow> 'a pull list \<times> 'a dataset" where
  "take_n 0 d = ([], d)"
| "take_n (Suc n) d =
     (case get_next d of
        None \<Rightarrow> ([], d)
      | Some (r, d') \<Rightarrow> (case take_n n d' of (rs, d'') \<Rightarrow> (r # rs, d'')))"

text \<open>The whole stream of a dataset, in order.\<close>

fun elements :: "'a::{zero,one} dataset \<Rightarrow> 'a pull list" where
  "elements (Source s xs) = map Inr xs"
| "elements (MapDataset g d) = map (apply_graph g) (elements d)"
| "elements (ConcatenateDataset s d1 d2) = elements d1 @ elements d2"

text \<open>
  \<^verbatim>\<open>Dataset.map(f)\<close>: \<open>f\<close> is traced on the symbolic element; an exception it raises
  there is raised by the call of \<^verbatim>\<open>map\<close> itself. A dataset needs at least one
  component: if what \<open>f\<close> returns holds no tensor (an empty dictionary, or dictionaries
  of empty dictionaries), the call raises \<open>InvalidArgumentError\<close>.
\<close>

definition ds_map ::
  "(sym nest \<Rightarrow> error + sym nest) \<Rightarrow> 'a dataset \<Rightarrow> error + 'a dataset" where
  "ds_map f d =
     (case f (placeholders [] (element_spec d)) of
        Inl e \<Rightarrow> Inl e
      | Inr g \<Rightarrow> if flatten g = [] then Inl InvalidArgumentError else Inr (MapDataset g d))"

text \<open>
  \<^verbatim>\<open>Dataset.concatenate\<close> refuses two datasets whose elements differ in structure or
  in an element type, with a \<open>TypeError\<close>; where the static shapes differ, the result
  declares the most specific shape compatible with both.
\<close>

definition most_specific_compatible_shape :: "static_shape \<Rightarrow> static_shape \<Rightarrow> static_shape" where
  "most_specific_compatible_shape s t =
     (case (s, t) of
        (Some ds, Some es) \<Rightarrow>
          if length ds = length es
          then Some (map (\<lambda>(d, e). if d = e then d else None) (zip ds es))
          else None
      | _ \<Rightarrow> None)"

fun concat_spec :: "tensor_spec nest \<Rightarrow> tensor_spec nest \<Rightarrow> error + tensor_spec nest"
and concat_spec_items ::
  "(string \<times> tensor_spec nest) list \<Rightarrow> (string \<times> tensor_spec nest) list \<Rightarrow>
   error + (string \<times> tensor_spec nest) list"
where
  "concat_spec (Leaf s) (Leaf t) =
     (if spec_dtype s = spec_dtype t
      then Inr (Leaf \<lparr>spec_shape = most_specific_compatible_shape (spec_shape s) (spec_shape t),
                      spec_dtype = spec_dtype s\<rparr>)
      else Inl TypeError)"
| "concat_spec (Leaf s) (Dict svs) = Inl TypeError"
| "concat_spec (Dict kvs) (Leaf t) = Inl TypeError"
| "concat_spec (Dict kvs) (Dict svs) =
     (if fst ` set kvs = fst ` set svs
      then (case concat_spec_items kvs svs of Inl e \<Rightarrow> Inl e | Inr r \<Rightarrow> Inr (Dict r))
      else Inl TypeError)"
| "concat_spec_items [] svs = Inr []"
| "concat_spec_items ((k, v) # kvs) svs =
     (case map_of svs k of
        None \<Rightarrow> Inl TypeError
      | Some w \<Rightarrow>
          (case concat_spec v w of
             Inl e \<Rightarrow> Inl e
           | Inr u \<Rightarrow>
               (case concat_spec_items kvs svs of
                  Inl e \<Rightarrow> Inl e
                | Inr r \<Rightarrow> Inr ((k, u) # r))))"

definition ds_concatenate :: "'a dataset \<Rightarrow> 'a dataset \<Rightarrow> error + 'a dataset" where
  "ds_concatenate d1 d2 =
     (case concat_spec (element_spec d1) (element_spec d2) of
        Inl e \<Rightarrow> Inl e
      | Inr s \<Rightarrow> Inr (ConcatenateDataset s d1 d2))"

subsection \<open>The module's functions\<close>

text \<open>
  \<^verbatim>\<open>feature["label"] = tf.ones_like(feature["label"]); return feature\<close>. The right-hand
  side is evaluated first: the field is read, then replaced.
\<close>

definition set_label_to_one :: "sym nest \<Rightarrow> error + sym nest" where
  "set_label_to_one feature =
     (case getitem feature ''label'' of
        Inl e \<Rightarrow> Inl e
      | Inr l \<Rightarrow>
          (case tf_ones_like l of
             Inl e \<Rightarrow> Inl e
           | Inr v \<Rightarrow> setitem feature ''label'' v))"

definition set_label_to_zero :: "sym nest \<Rightarrow> error + sym nest" where
  "set_label_to_zero feature =
     (case getitem feature ''label'' of
        Inl e \<Rightarrow> Inl e
      | Inr l \<Rightarrow>
          (case tf_zeros_like l of
             Inl e \<Rightarrow> Inl e
           | Inr v \<Rightarrow> setitem feature ''label'' v))"

text \<open>
  \<^verbatim>\<open>_keep_common_fields(feature, spec)\<close>. A \<open>feature\<close> that is not a dictionary is
  returned as it is, whatever \<open>spec\<close> is. Otherwise \<^verbatim>\<open>spec.keys()\<close> is called, which a
  \<^verbatim>\<open>TensorSpec\<close> does not have, and the result is built from the keys of \<open>feature\<close>
  that \<open>spec\<close> has too, each with the filtered value. The comprehension of the source
  runs over a Python set, in no defined order; here the fields keep the order they
  have in \<open>feature\<close>.
\<close>

fun keep_common_fields :: "'a nest \<Rightarrow> 'b nest \<Rightarrow> error + 'a nest"
and keep_common_items ::
  "(string \<times> 'a nest) list \<Rightarrow> (string \<times> 'b nest) list \<Rightarrow> error + (string \<times> 'a nest) list"
where
  "keep_common_fields (Leaf t) spec = Inr (Leaf t)"
| "keep_common_fields (Dict kvs) (Leaf s) = Inl AttributeError"
| "keep_common_fields (Dict kvs) (Dict svs) =
     (case keep_common_items kvs svs of Inl e \<Rightarrow> Inl e | Inr r \<Rightarrow> Inr (Dict r))"
| "keep_common_items [] svs = Inr []"
| "keep_common_items ((k, v) # kvs) svs =
     (case map_of svs k of
        None \<Rightarrow> keep_common_items kvs svs
      | Some s \<Rightarrow>
          (case keep_common_fields v s of
             Inl e \<Rightarrow> Inl e
           | Inr v' \<Rightarrow>
               (case keep_common_items kvs svs of
                  Inl e \<Rightarrow> Inl e
                | Inr r \<Rightarrow> Inr ((k, v') # r))))"

text \<open>The two functions local to \<^verbatim>\<open>_concatenate\<close>, with the specification they close over.\<close>

definition format_in_ds :: "tensor_spec nest \<Rightarrow> sym nest \<Rightarrow> error + sym nest" where
  "format_in_ds out_spec feature =
     (case set_label_to_one feature of
        Inl e \<Rightarrow> Inl e
      | Inr feature' \<Rightarrow> keep_common_fields feature' out_spec)"

definition format_out_ds :: "tensor_spec nest \<Rightarrow> sym nest \<Rightarrow> error + sym nest" where
  "format_out_ds in_spec feature =
     (case set_label_to_zero feature of
        Inl e \<Rightarrow> Inl e
      | Inr feature' \<Rightarrow> keep_common_fields feature' in_spec)"

text \<open>
  \<^verbatim>\<open>in_ds.map(format_in_ds).concatenate(out_ds.map(format_out_ds))\<close>: the receiver is
  evaluated first, then the argument, then the call.
\<close>

definition concatenate :: "'a dataset \<Rightarrow> 'a dataset \<Rightarrow> error + 'a dataset" where
  "concatenate in_ds out_ds =
     (let in_spec = element_spec in_ds;
          out_spec = element_spec out_ds
      in case ds_map (format_in_ds out_spec) in_ds of
           Inl e \<Rightarrow> Inl e
         | Inr d1 \<Rightarrow>
             (case ds_map (format_out_ds in_spec) out_ds of
                Inl e \<Rightarrow> Inl e
              | Inr d2 \<Rightarrow> ds_concatenate d1 d2))"

text \<open>
  \<^verbatim>\<open>OodDetectionDataset\<close>. Its two abstract properties are datasets of the package's
  base class, each given here by its \<^verbatim>\<open>load\<close> method; \<open>'p\<close> is the type of the
  preprocessing function handed through.
\<close>

record dataset_info =
  num_classes :: int

record ('p, 'a) ood_detection_dataset =
  in_dataset :: "'p \<Rightarrow> 'a dataset"
  out_dataset :: "'p \<Rightarrow> 'a dataset"

definition info :: "('p, 'a) ood_detection_dataset \<Rightarrow> dataset_info" where
  "info self = \<lparr>num_classes = 2\<rparr>"

definition load :: "('p, 'a) ood_detection_dataset \<Rightarrow> 'p \<Rightarrow> error + 'a dataset" where
  "load self preprocess_fn =
     (let in_ds = in_dataset self preprocess_fn;
          out_ds = out_dataset self preprocess_fn
      in concatenate in_ds out_ds)"

subsection \<open>Well-formed sources\<close>

text \<open>
  The component of the element a symbolic tensor is computed from.
\<close>

fun source_path :: "sym \<Rightarrow> string list" where
  "source_path (Component p s) = p"
| "source_path (OnesLike t) = source_path t"
| "source_path (ZerosLike t) = source_path t"

text \<open>A Python dictionary has every key once, at every depth.\<close>

fun distinct_keys :: "'a nest \<Rightarrow> bool" where
  "distinct_keys (Leaf t) = True"
| "distinct_keys (Dict kvs) = (distinct (map fst kvs) \<and> list_all (\<lambda>kv. distinct_keys (snd kv)) kvs)"

text \<open>
  A tensor conforms to a \<^verbatim>\<open>TensorSpec\<close> of its element type whose static shape, where
  known, is its shape; an element conforms to an \<^verbatim>\<open>element_spec\<close> of the same structure
  whose tensors it conforms to. A dataset is well formed when iterating over it raises
  nothing and every element conforms to its \<^verbatim>\<open>element_spec\<close>: the invariant of
  \<^verbatim>\<open>tf.data\<close>.
\<close>

definition tensor_conforms :: "'a tensor \<Rightarrow> tensor_spec \<Rightarrow> bool" where
  "tensor_conforms t s \<longleftrightarrow>
     dtype t = spec_dtype s \<and>
     (case spec_shape s of
        None \<Rightarrow> True
      | Some ds \<Rightarrow> list_all2 (\<lambda>n d. d = None \<or> d = Some n) (shape t) ds)"

definition conforms :: "'a tensor nest \<Rightarrow> tensor_spec nest \<Rightarrow> bool" where
  "conforms x spec \<longleftrightarrow> rel_nest tensor_conforms x spec"

definition well_formed :: "'a::{zero,one} dataset \<Rightarrow> bool" where
  "well_formed d \<longleftrightarrow>
     distinct_keys (element_spec d) \<and>
     list_all (\<lambda>q. case q of Inl e \<Rightarrow> False | Inr x \<Rightarrow> conforms x (element_spec d)) (elements d)"

subsection \<open>Example sources\<close>

text \<open>
  Small sources used to run the definitions: two-pixel images, scalar labels. \<open>ex_in\<close>
  has the fields \<open>x\<close> and \<open>label\<close>; \<open>ex_out_unlabelled\<close> has \<open>x\<close> and \<open>y\<close> and no
  label; \<open>ex_out\<close> has \<open>x\<close>, \<open>y\<close> and \<open>label\<close>; in \<open>ex_out_nested\<close> the field \<open>x\<close>
  is a dictionary; \<open>ex_only_a\<close> and \<open>ex_only_b\<close> share no field. \<open>ex_composed\<close> is
  the composition of \<open>ex_in\<close> and \<open>ex_out\<close>, with the two traced functions
  \<open>ex_in_graph\<close> and \<open>ex_out_graph\<close>; \<open>ex_out_relabelled\<close> is the symbolic element of
  \<open>ex_out\<close> after relabelling, before filtering.
\<close>

definition image_spec :: tensor_spec where
  "image_spec = \<lparr>spec_shape = Some [Some 2], spec_dtype = DT_uint8\<rparr>"

definition label_spec :: tensor_spec where
  "label_spec = \<lparr>spec_shape = Some [], spec_dtype = DT_int64\<rparr>"

definition img :: "int \<Rightarrow> int \<Rightarrow> int tensor" where
  "img a b = \<lparr>shape = [2], dtype = DT_uint8, elems = [a, b]\<rparr>"

definition scalar :: "int \<Rightarrow> int tensor" where
  "scalar c = \<lparr>shape = [], dtype = DT_int64, elems = [c]\<rparr>"

definition ex_in :: "int dataset" where
  "ex_in = Source (Dict [(''x'', Leaf image_spec), (''label'', Leaf label_spec)])
     [Dict [(''x'', Leaf (img 1 2)), (''label'', Leaf (scalar 7))],
      Dict [(''x'', Leaf (img 3 4)), (''label'', Leaf (scalar 4))]]"

definition ex_out_unlabelled :: "int dataset" where
  "ex_out_unlabelled = Source (Dict [(''x'', Leaf image_spec), (''y'', Leaf label_spec)])
     [Dict [(''x'', Leaf (img 5 6)), (''y'', Leaf (scalar 10))],
      Dict [(''x'', Leaf (img 7 8)), (''y'', Leaf (scalar 11))],
      Dict [(''x'', Leaf (img 9 0)), (''y'', Leaf (scalar 12))]]"

definition ex_out :: "int dataset" where
  "ex_out = Source (Dict [(''x'', Leaf image_spec), (''y'', Leaf label_spec), (''label'', Leaf label_spec)])
     [Dict [(''x'', Leaf (img 5 6)), (''y'', Leaf (scalar 10)), (''label'', Leaf (scalar 55))],
      Dict [(''x'', Leaf (img 7 8)), (''y'', Leaf (scalar 11)), (''label'', Leaf (scalar 56))],
      Dict [(''x'', Leaf (img 9 0)), (''y'', Leaf (scalar 12)), (''label'', Leaf (scalar 57))]]"

definition ex_out_nested :: "int dataset" where
  "ex_out_nested = Source (Dict [(''x'', Dict [(''pixels'', Leaf image_spec)]), (''label'', Leaf label_spec)])
     [Dict [(''x'', Dict [(''pixels'', Leaf (img 5 6))]), (''label'', Leaf (scalar 55))]]"

definition ex_only_a :: "int dataset" where
  "ex_only_a = Source (Dict [(''a'', Leaf image_spec)]) [Dict [(''a'', Leaf (img 1 2))]]"

definition ex_only_b :: "int dataset" where
  "ex_only_b = Source (Dict [(''b'', Leaf image_spec)]) [Dict [(''b'', Leaf (img 5 6))]]"

definition ex_in_graph :: "sym nest" where
  "ex_in_graph = Dict [(''x'', Leaf (Component [''x''] image_spec)),
                       (''label'', Leaf (OnesLike (Component [''label''] label_spec)))]"

definition ex_out_graph :: "sym nest" where
  "ex_out_graph = Dict [(''x'', Leaf (Component [''x''] image_spec)),
                        (''label'', Leaf (ZerosLike (Component [''label''] label_spec)))]"

definition ex_composed :: "int dataset" where
  "ex_composed =
     ConcatenateDataset (Dict [(''x'', Leaf image_spec), (''label'', Leaf label_spec)])
       (MapDataset ex_in_graph ex_in) (MapDataset ex_out_graph ex_out)"

definition labelled :: "int \<Rightarrow> int \<Rightarrow> int \<Rightarrow> int tensor nest" where
  "labelled a b c = Dict [(''x'', Leaf (img a b)), (''label'', Leaf (scalar c))]"

definition ex_out_relabelled :: "sym nest" where
  "ex_out_relabelled = Dict [(''x'', Leaf (Component [''x''] image_spec)),
                             (''y'', Leaf (Component [''y''] label_spec)),
                             (''label'', Leaf (ZerosLike (Component [''label''] label_spec)))]"

text \<open>
  Two sources with a nested field: \<open>x\<close> is a dictionary with the fields \<open>pixels\<close> and
  \<open>meta\<close> in \<open>ex_in_deep\<close>, with \<open>pixels\<close> and \<open>extra\<close> in \<open>ex_out_deep\<close>, which has a
  field \<open>y\<close> as well. With them their symbolic elements after relabelling, the two
  traced functions, their composition and a record of it.
\<close>

definition ex_in_deep :: "int dataset" where
  "ex_in_deep =
     Source (Dict [(''x'', Dict [(''pixels'', Leaf image_spec), (''meta'', Leaf label_spec)]),
                   (''label'', Leaf label_spec)])
       [Dict [(''x'', Dict [(''pixels'', Leaf (img 1 2)), (''meta'', Leaf (scalar 3))]),
              (''label'', Leaf (scalar 7))]]"

definition ex_out_deep :: "int dataset" where
  "ex_out_deep =
     Source (Dict [(''x'', Dict [(''pixels'', Leaf image_spec), (''extra'', Leaf label_spec)]),
                   (''y'', Leaf label_spec), (''label'', Leaf label_spec)])
       [Dict [(''x'', Dict [(''pixels'', Leaf (img 5 6)), (''extra'', Leaf (scalar 9))]),
              (''y'', Leaf (scalar 10)), (''label'', Leaf (scalar 55))]]"

definition ex_in_deep_relabelled :: "sym nest" where
  "ex_in_deep_relabelled =
     Dict [(''x'', Dict [(''pixels'', Leaf (Component [''x'', ''pixels''] image_spec)),
                         (''meta'', Leaf (Component [''x'', ''meta''] label_spec))]),
           (''label'', Leaf (OnesLike (Component [''label''] label_spec)))]"

definition ex_out_deep_relabelled :: "sym nest" where
  "ex_out_deep_relabelled =
     Dict [(''x'', Dict [(''pixels'', Leaf (Component [''x'', ''pixels''] image_spec)),
                         (''extra'', Leaf (Component [''x'', ''extra''] label_spec))]),
           (''y'', Leaf (Component [''y''] label_spec)),
           (''label'', Leaf (ZerosLike (Component [''label''] label_spec)))]"

definition ex_in_deep_graph :: "sym nest" where
  "ex_in_deep_graph =
     Dict [(''x'', Dict [(''pixels'', Leaf (Component [''x'', ''pixels''] image_spec))]),
           (''label'', Leaf (OnesLike (Component [''label''] label_spec)))]"

definition ex_out_deep_graph :: "sym nest" where
  "ex_out_deep_graph =
     Dict [(''x'', Dict [(''pixels'', Leaf (Component [''x'', ''pixels''] image_spec))]),
           (''label'', Leaf (ZerosLike (Component [''label''] label_spec)))]"

definition ex_deep_composed :: "int dataset" where
  "ex_deep_composed =
     ConcatenateDataset
       (Dict [(''x'', Dict [(''pixels'', Leaf image_spec)]), (''label'', Leaf label_spec)])
       (MapDataset ex_in_deep_graph ex_in_deep) (MapDataset ex_out_deep_graph ex_out_deep)"

definition deep_labelled :: "int \<Rightarrow> int \<Rightarrow> int \<Rightarrow> int tensor nest" where
  "deep_labelled a b c =
     Dict [(''x'', Dict [(''pixels'', Leaf (img a b))]), (''label'', Leaf (scalar c))]"

section \<open>Ensemble diversity\<close>

text \<open>
  The accumulator \<^verbatim>\<open>AveragePairwiseDiversity\<close> is exercised by
  \<^verbatim>\<open>robustness_metrics/metrics/diversity_test.py\<close>; the module that implements it,
  \<^verbatim>\<open>robustness_metrics/metrics/diversity.py\<close>, is not among the sources. Every
  definition of this section follows the design document instead. Probabilities are
  real numbers: rounding is not modelled.
\<close>

text \<open>
  Modelled from the spec: the error \<open>InvalidArgument\<close> of the accumulator's failure
  semantics (4.2, 7).
\<close>

datatype metric_error = InvalidArgument

text \<open>
  Modelled from the spec: a predicted distribution over the classes, the last axis of a
  \<open>ProbabilityBatch\<close> (3).
\<close>

type_synonym distribution = "real list"

text \<open>
  Modelled from the spec: an example is what all members predict for one input, one
  distribution per member (3).
\<close>

type_synonym example = "distribution list"

text \<open>
  Modelled from the spec: the \<open>ProbabilityBatch\<close> (3), a list per member of a list per
  example of distributions.
\<close>

type_synonym probability_batch = "distribution list list"

text \<open>
  Modelled from the spec: the class of largest probability, ties broken by the lowest class
  index (4.2).
\<close>

fun argmax :: "real list \<Rightarrow> nat" where
  "argmax [] = 0"
| "argmax (x # xs) = (if \<forall>y\<in>set xs. y \<le> x then 0 else Suc (argmax xs))"

text \<open>
  Modelled from the spec: the disagreement contribution of a pair: 1 if the two argmax classes
  differ, else 0 (4.2).
\<close>

definition disagreement :: "distribution \<Rightarrow> distribution \<Rightarrow> real" where
  "disagreement p q = (if argmax p \<noteq> argmax q then 1 else 0)"

text \<open>
  Modelled from the spec: the KL contribution, the sum over the classes of
  \<open>p\<^sub>c * log (p\<^sub>c / q\<^sub>c)\<close>, a class of probability zero contributing zero (4.2).
\<close>

definition kl_divergence :: "distribution \<Rightarrow> distribution \<Rightarrow> real" where
  "kl_divergence p q = (\<Sum>(a, b)\<leftarrow>zip p q. if a = 0 then 0 else a * ln (a / b))"

text \<open>
  Modelled from the spec: the cosine of the angle between the two probability vectors, 0 if
  either has norm zero (4.2).
\<close>

definition cosine_similarity :: "distribution \<Rightarrow> distribution \<Rightarrow> real" where
  "cosine_similarity p q =
     (let n = sqrt (\<Sum>a\<leftarrow>p. a\<^sup>2) * sqrt (\<Sum>b\<leftarrow>q. b\<^sup>2)
      in if n = 0 then 0 else (\<Sum>(a, b)\<leftarrow>zip p q. a * b) / n)"

text \<open>
  Modelled from the spec: what the \<open>DiversityState\<close> holds for one pair of members (3): the
  accumulated sums of the disagreement, KL and cosine-similarity contributions.
\<close>

record pair_stats =
  disagreement_sum :: real
  kl_sum :: real
  cosine_sum :: real

text \<open>
  Modelled from the spec: the \<open>DiversityState\<close> itself (3): the total example count and the
  sums of each pair considered so far.
\<close>

record diversity_state =
  num_examples :: nat
  pair_sums :: "((nat \<times> nat) \<times> pair_stats) list"

text \<open>
  Modelled from the spec: the state is created empty (3, 4.2).
\<close>

definition empty_state :: diversity_state where
  "empty_state = \<lparr>num_examples = 0, pair_sums = []\<rparr>"

text \<open>
  Modelled from the spec: the unordered pairs of \<open>m\<close> ensemble members, the lower index first
  (4.2).
\<close>

definition member_pairs :: "nat \<Rightarrow> (nat \<times> nat) list" where
  "member_pairs m = concat (map (\<lambda>i. map (\<lambda>j. (i, j)) [Suc i..<m]) [0..<m])"

text \<open>
  Modelled from the spec: the examples of a batch: the batch read along its second axis (3).
\<close>

definition batch_examples :: "probability_batch \<Rightarrow> example list" where
  "batch_examples probs = transpose probs"

text \<open>
  Modelled from the spec: the inputs \<open>add_batch\<close> accepts (4.2): at least two members, as many
  as the leading axis is long, every member with the same number of examples, every
  distribution with the same number of classes, every distribution summing to 1 within
  a tolerance. The design document does not give the tolerance; it is the parameter
  \<open>tol\<close>.
\<close>

definition valid_batch :: "real \<Rightarrow> probability_batch \<Rightarrow> nat \<Rightarrow> bool" where
  "valid_batch tol probs num_models \<longleftrightarrow>
     2 \<le> num_models \<and> length probs = num_models \<and>
     (\<forall>a\<in>set probs. \<forall>b\<in>set probs. length a = length b) \<and>
     (\<forall>p\<in>set (concat probs). \<forall>q\<in>set (concat probs). length p = length q) \<and>
     (\<forall>p\<in>set (concat probs). \<bar>sum_list p - 1\<bar> \<le> tol)"

text \<open>
  Modelled from the spec: what a list of examples contributes to the three sums of a pair (3,
  4.2).
\<close>

definition contribution :: "example list \<Rightarrow> nat \<times> nat \<Rightarrow> pair_stats" where
  "contribution exs pr =
     \<lparr>disagreement_sum = (\<Sum>ex\<leftarrow>exs. disagreement (ex ! fst pr) (ex ! snd pr)),
      kl_sum = (\<Sum>ex\<leftarrow>exs. kl_divergence (ex ! fst pr) (ex ! snd pr)),
      cosine_sum = (\<Sum>ex\<leftarrow>exs. cosine_similarity (ex ! fst pr) (ex ! snd pr))\<rparr>"

text \<open>
  Modelled from the spec: the sum of two triples of sums: merging is additive (5).
\<close>

definition add_stats :: "pair_stats \<Rightarrow> pair_stats \<Rightarrow> pair_stats" where
  "add_stats s t =
     \<lparr>disagreement_sum = disagreement_sum s + disagreement_sum t,
      kl_sum = kl_sum s + kl_sum t,
      cosine_sum = cosine_sum s + cosine_sum t\<rparr>"

text \<open>
  Modelled from the spec: the sums of a pair before any batch (3).
\<close>

definition zero_stats :: pair_stats where
  "zero_stats = \<lparr>disagreement_sum = 0, kl_sum = 0, cosine_sum = 0\<rparr>"

text \<open>
  Modelled from the spec: \<open>add_batch\<close> (4.2) fails with \<open>InvalidArgument\<close> on a malformed input;
  otherwise it adds the number of examples of the batch to the count and the
  contribution of the batch to the sums of every pair of members, and leaves the sums of
  any other pair seen before as they are.
\<close>

definition add_batch ::
  "real \<Rightarrow> probability_batch \<Rightarrow> nat \<Rightarrow> diversity_state \<Rightarrow> metric_error + diversity_state" where
  "add_batch tol probs num_models st =
     (if \<not> valid_batch tol probs num_models then Inl InvalidArgument
      else
        let exs = batch_examples probs;
            pairs = member_pairs num_models
        in Inr \<lparr>num_examples = num_examples st + length exs,
                pair_sums =
                  map (\<lambda>pr. (pr, add_stats
                                (case map_of (pair_sums st) pr of None \<Rightarrow> zero_stats | Some s \<Rightarrow> s)
                                (contribution exs pr))) pairs
                  @ filter (\<lambda>(pr, s). pr \<notin> set pairs) (pair_sums st)\<rparr>)"

text \<open>
  Modelled from the spec: \<open>add_batch\<close> called once per batch, in order, with the same number
  of members (4.2, 8); the first failure ends the run.
\<close>

fun add_batches ::
  "real \<Rightarrow> nat \<Rightarrow> probability_batch list \<Rightarrow> diversity_state \<Rightarrow> metric_error + diversity_state" where
  "add_batches tol num_models [] st = Inr st"
| "add_batches tol num_models (probs # rest) st =
     (case add_batch tol probs num_models st of
        Inl e \<Rightarrow> Inl e
      | Inr st' \<Rightarrow> add_batches tol num_models rest st')"

text \<open>
  Modelled from the spec: a metric of \<open>result\<close> (4.2): the sums of the pairs averaged over the
  pairs, then over the examples seen; undefined (\<open>None\<close>) when no example has been
  seen.
\<close>

definition average :: "(pair_stats \<Rightarrow> real) \<Rightarrow> diversity_state \<Rightarrow> real option" where
  "average f st =
     (if num_examples st = 0 then None
      else Some ((\<Sum>(pr, s)\<leftarrow>pair_sums st. f s) / real (length (pair_sums st))
                  / real (num_examples st)))"

text \<open>
  Modelled from the spec: each value of \<open>result\<close> is a single scalar (4.2), a tensor of shape
  \<open>[]\<close> with one entry.
\<close>

definition scalar_value :: "real option \<Rightarrow> real option tensor" where
  "scalar_value v = \<lparr>shape = [], dtype = DT_float32, elems = [v]\<rparr>"

text \<open>
  Modelled from the spec: \<open>result\<close> maps \<open>disagreement\<close>, \<open>average_kl\<close> and
  \<open>cosine_similarity\<close> to their values (4.2).
\<close>

definition result :: "diversity_state \<Rightarrow> (string \<times> real option tensor) list" where
  "result st =
     [(''disagreement'', scalar_value (average disagreement_sum st)),
      (''average_kl'', scalar_value (average kl_sum st)),
      (''cosine_similarity'', scalar_value (average cosine_sum st))]"

text \<open>
  Modelled from the spec: the sums a state holds for a pair, zero for a pair not yet
  considered (3).
\<close>

definition stats_of :: "diversity_state \<Rightarrow> nat \<times> nat \<Rightarrow> pair_stats" where
  "stats_of st pr = (case map_of (pair_sums st) pr of None \<Rightarrow> zero_stats | Some s \<Rightarrow> s)"

text \<open>
  Modelled from the spec: the scenario of two batches of one example each against one batch of
  the same two examples (8), for two members and two classes; this is the first batch.
\<close>

definition ex_batch_first :: probability_batch where
  "ex_batch_first = [[[1/2, 1/2]], [[1/4, 3/4]]]"

text \<open>
  Modelled from the spec: the second batch of that scenario (8).
\<close>

definition ex_batch_second :: probability_batch where
  "ex_batch_second = [[[1, 0]], [[1/2, 1/2]]]"

text \<open>
  Modelled from the spec: the combined batch of that scenario (8).
\<close>

definition ex_batch_both :: probability_batch where
  "ex_batch_both = [[[1/2, 1/2], [1, 0]], [[1/4, 3/4], [1/2, 1/2]]]"

section \<open>Auxiliary facts\<close>

lemmas ex_defs = image_spec_def label_spec_def img_def scalar_def ex_in_def ex_out_unlabelled_def
  ex_out_def ex_out_nested_def ex_only_a_def ex_only_b_def ex_in_graph_def ex_out_graph_def
  ex_composed_def labelled_def ex_out_relabelled_def ex_in_deep_def ex_out_deep_def
  ex_in_deep_relabelled_def ex_out_deep_relabelled_def ex_in_deep_graph_def ex_out_deep_graph_def
  ex_deep_composed_def deep_labelled_def

lemmas run_defs = concatenate_def ds_map_def ds_concatenate_def format_in_ds_def format_out_ds_def
  set_label_to_one_def set_label_to_zero_def apply_graph_def ones_like_def zeros_like_def
  most_specific_compatible_shape_def


subsection \<open>Relabelling\<close>

lemma set_label_to_one_Inr:
  "set_label_to_one feature = Inr f' \<longleftrightarrow>
     (\<exists>kvs l. feature = Dict kvs \<and> map_of kvs ''label'' = Some (Leaf l) \<and>
        f' = Dict (AList.update ''label'' (Leaf (OnesLike l)) kvs))"
proof (cases feature)
  case (Leaf t)
  then show ?thesis by (simp add: set_label_to_one_def)
next
  case (Dict kvs)
  show ?thesis
  proof (cases "map_of kvs ''label''")
    case None
    with Dict show ?thesis by (simp add: set_label_to_one_def)
  next
    case (Some v)
    with Dict show ?thesis
      by (cases v) (auto simp: set_label_to_one_def)
  qed
qed

lemma set_label_to_zero_Inr:
  "set_label_to_zero feature = Inr f' \<longleftrightarrow>
     (\<exists>kvs l. feature = Dict kvs \<and> map_of kvs ''label'' = Some (Leaf l) \<and>
        f' = Dict (AList.update ''label'' (Leaf (ZerosLike l)) kvs))"
proof (cases feature)
  case (Leaf t)
  then show ?thesis by (simp add: set_label_to_zero_def)
next
  case (Dict kvs)
  show ?thesis
  proof (cases "map_of kvs ''label''")
    case None
    with Dict show ?thesis by (simp add: set_label_to_zero_def)
  next
    case (Some v)
    with Dict show ?thesis
      by (cases v) (auto simp: set_label_to_zero_def)
  qed
qed

lemma set_label_to_one_Inl:
  "set_label_to_one feature = Inl e \<longleftrightarrow>
     (case feature of
        Leaf t \<Rightarrow> e = TypeError
      | Dict kvs \<Rightarrow>
          (case map_of kvs ''label'' of
             None \<Rightarrow> e = KeyError ''label''
           | Some (Leaf l) \<Rightarrow> False
           | Some (Dict d) \<Rightarrow> e = TypeError))"
proof (cases feature)
  case (Leaf t)
  then show ?thesis by (auto simp: set_label_to_one_def)
next
  case (Dict kvs)
  show ?thesis
  proof (cases "map_of kvs ''label''")
    case None
    with Dict show ?thesis by (auto simp: set_label_to_one_def)
  next
    case (Some v)
    with Dict show ?thesis
      by (cases v) (auto simp: set_label_to_one_def)
  qed
qed

lemma set_label_to_zero_Inl:
  "set_label_to_zero feature = Inl e \<longleftrightarrow>
     (case feature of
        Leaf t \<Rightarrow> e = TypeError
      | Dict kvs \<Rightarrow>
          (case map_of kvs ''label'' of
             None \<Rightarrow> e = KeyError ''label''
           | Some (Leaf l) \<Rightarrow> False
           | Some (Dict d) \<Rightarrow> e = TypeError))"
proof (cases feature)
  case (Leaf t)
  then show ?thesis by (auto simp: set_label_to_zero_def)
next
  case (Dict kvs)
  show ?thesis
  proof (cases "map_of kvs ''label''")
    case None
    with Dict show ?thesis by (auto simp: set_label_to_zero_def)
  next
    case (Some v)
    with Dict show ?thesis
      by (cases v) (auto simp: set_label_to_zero_def)
  qed
qed

lemma getitem_update:
  "getitem (Dict (AList.update k v kvs)) k' = (if k' = k then Inr v else getitem (Dict kvs) k')"
  by (simp add: update_conv')

lemma shape_ones_like [simp]: "shape (ones_like t) = shape t"
  and dtype_ones_like [simp]: "dtype (ones_like t) = dtype t"
  and elems_ones_like [simp]: "elems (ones_like t) = replicate (prod_list (shape t)) 1"
  by (simp_all add: ones_like_def)

lemma shape_zeros_like [simp]: "shape (zeros_like t) = shape t"
  and dtype_zeros_like [simp]: "dtype (zeros_like t) = dtype t"
  and elems_zeros_like [simp]: "elems (zeros_like t) = replicate (prod_list (shape t)) 0"
  by (simp_all add: zeros_like_def)


subsection \<open>Iteration\<close>

lemma get_next_None: "get_next d = None \<longleftrightarrow> elements d = []"
  by (induction d rule: get_next.induct) (auto split: option.splits)

lemma get_next_Some: "get_next d = Some (r, d') \<Longrightarrow> elements d = r # elements d'"
proof (induction d arbitrary: r d' rule: get_next.induct)
  case (4 s d1 d2)
  then show ?case
    by (auto split: option.splits simp: get_next_None)
qed (auto split: option.splits)

lemma take_n_elements:
  "fst (take_n n d) = take n (elements d) \<and> elements (snd (take_n n d)) = drop n (elements d)"
proof (induction n arbitrary: d)
  case 0
  then show ?case by simp
next
  case (Suc n)
  show ?case
  proof (cases "get_next d")
    case None
    moreover from None have "elements d = []" by (simp add: get_next_None)
    ultimately show ?thesis by simp
  next
    case (Some a)
    obtain r d' where a: "a = (r, d')" by (cases a)
    from Some a have "elements d = r # elements d'" by (simp add: get_next_Some)
    with Some a Suc [of d'] show ?thesis
      by (auto split: prod.splits)
  qed
qed

lemma take_n_MapDataset:
  "take_n n (MapDataset g d) =
     (map (apply_graph g) (fst (take_n n d)), MapDataset g (snd (take_n n d)))"
proof (induction n arbitrary: d)
  case 0
  then show ?case by simp
next
  case (Suc n)
  then show ?case
    by (cases "get_next d") (auto split: prod.splits)
qed

lemma take_n_ConcatenateDataset:
  "n \<le> length (elements d1) \<Longrightarrow>
   take_n n (ConcatenateDataset s d1 d2) =
     (fst (take_n n d1), ConcatenateDataset s (snd (take_n n d1)) d2)"
proof (induction n arbitrary: d1)
  case 0
  then show ?case by simp
next
  case (Suc n)
  from Suc.prems have "elements d1 \<noteq> []" by auto
  then obtain r d1' where g: "get_next d1 = Some (r, d1')"
    by (cases "get_next d1") (auto simp: get_next_None)
  then have "elements d1 = r # elements d1'" by (rule get_next_Some)
  with Suc.prems have "n \<le> length (elements d1')" by simp
  from Suc.IH [OF this] g show ?case
    by (simp split: prod.splits)
qed

lemma concatenate_Inr:
  "concatenate in_ds out_ds = Inr ds \<longleftrightarrow>
     (\<exists>gi go s.
        format_in_ds (element_spec out_ds) (placeholders [] (element_spec in_ds)) = Inr gi \<and>
        format_out_ds (element_spec in_ds) (placeholders [] (element_spec out_ds)) = Inr go \<and>
        flatten gi \<noteq> [] \<and> flatten go \<noteq> [] \<and>
        concat_spec (specs_of gi) (specs_of go) = Inr s \<and>
        ds = ConcatenateDataset s (MapDataset gi in_ds) (MapDataset go out_ds))"
  by (auto simp: concatenate_def ds_map_def ds_concatenate_def Let_def
           split: sum.splits if_splits)

lemma ds_map_Inr:
  "ds_map f d = Inr d' \<longleftrightarrow>
     (\<exists>g. f (placeholders [] (element_spec d)) = Inr g \<and> flatten g \<noteq> [] \<and> d' = MapDataset g d)"
  by (auto simp: ds_map_def split: sum.splits if_splits)

lemma ds_map_Inl:
  "ds_map f d = Inl e \<longleftrightarrow>
     f (placeholders [] (element_spec d)) = Inl e \<or>
     (\<exists>g. f (placeholders [] (element_spec d)) = Inr g \<and> flatten g = [] \<and> e = InvalidArgumentError)"
  by (auto simp: ds_map_def split: sum.splits if_splits)

subsection \<open>Structure of filtered and evaluated nests\<close>


lemma map_of_map_prod: "map_of (map (map_prod id f) al) k = map_option f (map_of al k)"
  by (induction al) auto

lemma map_prod_update:
  "map (map_prod id f) (AList.update k v al) = AList.update k (f v) (map (map_prod id f) al)"
  by (induction al) auto

lemma fst_set_map_prod: "fst ` set (map (map_prod id f) al) = fst ` set al"
  by (induction al) auto

lemma lookup_map_nest: "lookup (map_nest f n) p = map_option (map_nest f) (lookup n p)"
proof (induction n p rule: lookup.induct)
  case (3 kvs k p)
  then show ?case
    by (cases "map_of kvs k") (simp_all add: map_of_map_prod)
qed simp_all

lemma keys_at_map_nest: "keys_at (map_nest f n) p = keys_at n p"
proof (cases "lookup n p")
  case None
  then show ?thesis by (simp add: keys_at_def lookup_map_nest)
next
  case (Some m)
  then show ?thesis
    by (cases m) (simp_all add: keys_at_def lookup_map_nest fst_set_map_prod image_image)
qed

lemma keys_at_skel_eq: "skel a = skel b \<Longrightarrow> keys_at a p = keys_at b p"
  by (metis keys_at_map_nest)

lemma keys_at_Leaf [simp]: "keys_at (Leaf a) p = {}"
  by (cases p) (simp_all add: keys_at_def)

lemma keys_at_Dict_Nil [simp]: "keys_at (Dict kvs) [] = fst ` set kvs"
  by (simp add: keys_at_def)

lemma keys_at_Dict_Cons [simp]:
  "keys_at (Dict kvs) (k # p) = (case map_of kvs k of None \<Rightarrow> {} | Some v \<Rightarrow> keys_at v p)"
  by (simp add: keys_at_def split: option.splits)

lemma placeholders_skel: "skel (placeholders p s) = skel s"
  by (induction p s rule: placeholders.induct) auto

lemma specs_of_skel: "skel (specs_of g) = skel g"
  by (induction g rule: specs_of.induct) auto

lemma keep_common_items_map_of:
  "keep_common_items kvs svs = Inr items \<Longrightarrow>
   map_of items k =
     (case map_of kvs k of
        None \<Rightarrow> None
      | Some v \<Rightarrow>
          (case map_of svs k of
             None \<Rightarrow> None
           | Some w \<Rightarrow> (case keep_common_fields v w of Inl e \<Rightarrow> None | Inr v' \<Rightarrow> Some v')))"
proof (induction kvs arbitrary: items)
  case Nil
  then show ?case by simp
next
  case (Cons kv kvs)
  obtain k' v' where kv: "kv = (k', v')" by (cases kv)
  from Cons.prems Cons.IH kv show ?case
    by (auto split: option.splits sum.splits)
qed

lemma keep_common_items_defined:
  "keep_common_items kvs svs = Inr items \<Longrightarrow> map_of kvs k = Some v \<Longrightarrow>
   map_of svs k = Some w \<Longrightarrow> \<exists>v'. keep_common_fields v w = Inr v'"
proof (induction kvs arbitrary: items)
  case Nil
  then show ?case by simp
next
  case (Cons kv kvs)
  obtain k' v' where kv: "kv = (k', v')" by (cases kv)
  from Cons.prems Cons.IH kv show ?case
    by (auto split: option.splits sum.splits if_splits)
qed

lemma keep_common_items_keys:
  assumes "keep_common_items kvs svs = Inr items"
  shows "fst ` set items = fst ` set kvs \<inter> fst ` set svs"
proof -
  have "k \<in> dom (map_of items) \<longleftrightarrow> k \<in> dom (map_of kvs) \<and> k \<in> dom (map_of svs)" for k
  proof (cases "map_of kvs k")
    case None
    with keep_common_items_map_of [OF assms, of k] show ?thesis by (simp add: domIff)
  next
    case v: (Some v)
    show ?thesis
    proof (cases "map_of svs k")
      case None
      with v keep_common_items_map_of [OF assms, of k] show ?thesis by (simp add: domIff)
    next
      case (Some w)
      with v keep_common_items_defined [OF assms] obtain v'
        where "keep_common_fields v w = Inr v'" by blast
      with v Some keep_common_items_map_of [OF assms, of k] show ?thesis
        by (simp add: domIff)
    qed
  qed
  then have "dom (map_of items) = dom (map_of kvs) \<inter> dom (map_of svs)" by blast
  then show ?thesis by (simp only: dom_map_of_conv_image_fst)
qed

lemma run_skel:
  "(run g x = Inr r \<longrightarrow> skel r = skel g)"
  "(run_items kvs x = Inr items \<longrightarrow> map (map_prod id skel) items = map (map_prod id skel) kvs)"
  by (induction g x and kvs x arbitrary: r and items rule: run_run_items.induct)
     (auto split: sum.splits)

lemma run_items_map_of:
  "run_items kvs x = Inr items \<Longrightarrow>
   map_of items k =
     (case map_of kvs k of
        None \<Rightarrow> None
      | Some g \<Rightarrow> (case run g x of Inl e \<Rightarrow> None | Inr v \<Rightarrow> Some v))"
proof (induction kvs arbitrary: items)
  case Nil
  then show ?case by simp
next
  case (Cons kv kvs)
  obtain k' v' where kv: "kv = (k', v')" by (cases kv)
  from Cons.prems Cons.IH kv show ?case
    by (auto split: option.splits sum.splits)
qed

lemma run_items_defined:
  "run_items kvs x = Inr items \<Longrightarrow> map_of kvs k = Some g \<Longrightarrow> \<exists>v. run g x = Inr v"
proof (induction kvs arbitrary: items)
  case Nil
  then show ?case by simp
next
  case (Cons kv kvs)
  obtain k' v' where kv: "kv = (k', v')" by (cases kv)
  from Cons.prems Cons.IH kv show ?case
    by (auto split: option.splits sum.splits if_splits)
qed

lemma keep_common_fields_keys_at:
  "keep_common_fields f s = Inr r \<Longrightarrow> keys_at r p = keys_at f p \<inter> keys_at s p"
proof (induction p arbitrary: f s r)
  case Nil
  show ?case
  proof (cases f)
    case (Leaf a)
    with Nil.prems have "r = Leaf a" by simp
    with Leaf show ?thesis by simp
  next
    case f: (Dict kvs)
    with Nil.prems obtain svs where s: "s = Dict svs" by (cases s) auto
    with f Nil.prems obtain items where r: "r = Dict items"
      and items: "keep_common_items kvs svs = Inr items"
      by (auto split: sum.splits)
    from f s r keep_common_items_keys [OF items] show ?thesis by simp
  qed
next
  case (Cons k p)
  show ?case
  proof (cases f)
    case (Leaf a)
    with Cons.prems have "r = Leaf a" by simp
    with Leaf show ?thesis by simp
  next
    case f: (Dict kvs)
    with Cons.prems obtain svs where s: "s = Dict svs" by (cases s) auto
    with f Cons.prems obtain items where r: "r = Dict items"
      and items: "keep_common_items kvs svs = Inr items"
      by (auto split: sum.splits)
    show ?thesis
    proof (cases "map_of kvs k")
      case None
      with f r keep_common_items_map_of [OF items, of k] show ?thesis by simp
    next
      case v: (Some v)
      show ?thesis
      proof (cases "map_of svs k")
        case None
        with v f s r keep_common_items_map_of [OF items, of k] show ?thesis by simp
      next
        case w: (Some w)
        from keep_common_items_defined [OF items v w] obtain v'
          where v': "keep_common_fields v w = Inr v'" by blast
        from Cons.IH [OF v'] have "keys_at v' p = keys_at v p \<inter> keys_at w p" .
        with v w v' f s r keep_common_items_map_of [OF items, of k] show ?thesis by simp
      qed
    qed
  qed
qed

lemma set_label_to_one_skel:
  assumes "set_label_to_one f = Inr f'"
  shows "skel f' = skel f"
proof -
  from assms obtain kvs l where f: "f = Dict kvs" "map_of kvs ''label'' = Some (Leaf l)"
    "f' = Dict (AList.update ''label'' (Leaf (OnesLike l)) kvs)"
    by (auto simp: set_label_to_one_Inr)
  from f(2) have "map_of (map (map_prod id skel) kvs) ''label'' = Some (Leaf ())"
    by (simp add: map_of_map_prod)
  then have "AList.update ''label'' (Leaf ()) (map (map_prod id skel) kvs) = map (map_prod id skel) kvs"
    by (rule update_triv)
  with f show ?thesis by (simp add: map_prod_update)
qed

lemma set_label_to_zero_skel:
  assumes "set_label_to_zero f = Inr f'"
  shows "skel f' = skel f"
proof -
  from assms obtain kvs l where f: "f = Dict kvs" "map_of kvs ''label'' = Some (Leaf l)"
    "f' = Dict (AList.update ''label'' (Leaf (ZerosLike l)) kvs)"
    by (auto simp: set_label_to_zero_Inr)
  from f(2) have "map_of (map (map_prod id skel) kvs) ''label'' = Some (Leaf ())"
    by (simp add: map_of_map_prod)
  then have "AList.update ''label'' (Leaf ()) (map (map_prod id skel) kvs) = map (map_prod id skel) kvs"
    by (rule update_triv)
  with f show ?thesis by (simp add: map_prod_update)
qed

lemma concatenate_parts:
  assumes "concatenate in_ds out_ds = Inr ds"
  obtains ga gb gi go s where
    "set_label_to_one (placeholders [] (element_spec in_ds)) = Inr ga"
    "set_label_to_zero (placeholders [] (element_spec out_ds)) = Inr gb"
    "keep_common_fields ga (element_spec out_ds) = Inr gi"
    "keep_common_fields gb (element_spec in_ds) = Inr go"
    "concat_spec (specs_of gi) (specs_of go) = Inr s"
    "ds = ConcatenateDataset s (MapDataset gi in_ds) (MapDataset go out_ds)"
proof -
  from assms obtain gi go s where
    gi: "format_in_ds (element_spec out_ds) (placeholders [] (element_spec in_ds)) = Inr gi" and
    go: "format_out_ds (element_spec in_ds) (placeholders [] (element_spec out_ds)) = Inr go" and
    s: "concat_spec (specs_of gi) (specs_of go) = Inr s" and
    ds: "ds = ConcatenateDataset s (MapDataset gi in_ds) (MapDataset go out_ds)"
    by (auto simp: concatenate_Inr)
  from gi obtain ga where
    "set_label_to_one (placeholders [] (element_spec in_ds)) = Inr ga"
    "keep_common_fields ga (element_spec out_ds) = Inr gi"
    by (auto simp: format_in_ds_def split: sum.splits)
  moreover from go obtain gb where
    "set_label_to_zero (placeholders [] (element_spec out_ds)) = Inr gb"
    "keep_common_fields gb (element_spec in_ds) = Inr go"
    by (auto simp: format_out_ds_def split: sum.splits)
  ultimately show thesis using s ds that by blast
qed

lemma keep_common_fields_error:
  "(keep_common_fields (f :: 'a nest) (s :: 'b nest) = Inl e \<longrightarrow> e = AttributeError)"
  "(keep_common_items (kvs :: (string \<times> 'a nest) list) (svs :: (string \<times> 'b nest) list) = Inl e \<longrightarrow>
      e = AttributeError)"
  by (induction f s and kvs svs rule: keep_common_fields_keep_common_items.induct)
     (auto split: sum.splits option.splits)

lemma concat_spec_error:
  "(concat_spec a b = Inl e \<longrightarrow> e = TypeError)"
  "(concat_spec_items as bs = Inl e \<longrightarrow> e = TypeError)"
  by (induction a b and as bs rule: concat_spec_concat_spec_items.induct)
     (auto split: sum.splits option.splits if_splits)

lemma set_label_to_one_error:
  "e = KeyError ''label'' \<or> e = TypeError" if "set_label_to_one f = Inl e"
proof (cases f)
  case (Leaf t)
  then show ?thesis using that by (simp add: set_label_to_one_Inl)
next
  case (Dict kvs)
  show ?thesis
  proof (cases "map_of kvs ''label''")
    case None
    with Dict show ?thesis using that by (simp add: set_label_to_one_Inl)
  next
    case (Some v)
    with Dict show ?thesis using that by (cases v) (simp_all add: set_label_to_one_Inl)
  qed
qed

lemma set_label_to_zero_error:
  "e = KeyError ''label'' \<or> e = TypeError" if "set_label_to_zero f = Inl e"
proof (cases f)
  case (Leaf t)
  then show ?thesis using that by (simp add: set_label_to_zero_Inl)
next
  case (Dict kvs)
  show ?thesis
  proof (cases "map_of kvs ''label''")
    case None
    with Dict show ?thesis using that by (simp add: set_label_to_zero_Inl)
  next
    case (Some v)
    with Dict show ?thesis using that by (cases v) (simp_all add: set_label_to_zero_Inl)
  qed
qed

lemma format_in_ds_error:
  "format_in_ds spec f = Inl e \<Longrightarrow> e = KeyError ''label'' \<or> e = TypeError \<or> e = AttributeError"
  by (auto simp: format_in_ds_def split: sum.splits
           dest: set_label_to_one_error keep_common_fields_error(1) [rule_format])

lemma format_out_ds_error:
  "format_out_ds spec f = Inl e \<Longrightarrow> e = KeyError ''label'' \<or> e = TypeError \<or> e = AttributeError"
  by (auto simp: format_out_ds_def split: sum.splits
           dest: set_label_to_zero_error keep_common_fields_error(1) [rule_format])

lemma concatenate_error:
  assumes "concatenate in_ds out_ds = Inl e"
  shows "e = KeyError ''label'' \<or> e = TypeError \<or> e = AttributeError \<or> e = InvalidArgumentError"
proof (cases "ds_map (format_in_ds (element_spec out_ds)) in_ds")
  case (Inl e1)
  with assms have "e = e1" by (simp add: concatenate_def)
  with Inl show ?thesis by (auto simp: ds_map_Inl dest: format_in_ds_error)
next
  case d1: (Inr d1)
  show ?thesis
  proof (cases "ds_map (format_out_ds (element_spec in_ds)) out_ds")
    case (Inl e1)
    with d1 assms have "e = e1" by (simp add: concatenate_def)
    with Inl show ?thesis by (auto simp: ds_map_Inl dest: format_out_ds_error)
  next
    case (Inr d2)
    with d1 assms have "concat_spec (element_spec d1) (element_spec d2) = Inl e"
      by (simp add: concatenate_def ds_concatenate_def split: sum.splits)
    then show ?thesis using concat_spec_error(1) by blast
  qed
qed

lemma keep_common_fields_keeps_leaf:
  "keep_common_fields f s = Inr r \<Longrightarrow> lookup f p = Some (Leaf t) \<Longrightarrow> lookup s p = Some w \<Longrightarrow>
   lookup r p = Some (Leaf t)"
proof (induction p arbitrary: f s r)
  case Nil
  then show ?case by auto
next
  case (Cons k p)
  from Cons.prems(2) obtain kvs v where f: "f = Dict kvs" and v: "map_of kvs k = Some v"
    and lv: "lookup v p = Some (Leaf t)"
    by (cases f) (auto split: option.splits)
  from Cons.prems(3) obtain svs sw where s: "s = Dict svs" and sw: "map_of svs k = Some sw"
    and lw: "lookup sw p = Some w"
    by (cases s) (auto split: option.splits)
  from f s Cons.prems(1) obtain items where r: "r = Dict items"
    and items: "keep_common_items kvs svs = Inr items"
    by (auto split: sum.splits)
  from keep_common_items_defined [OF items v sw] obtain v'
    where v': "keep_common_fields v sw = Inr v'" by blast
  with v sw keep_common_items_map_of [OF items, of k] have "map_of items k = Some v'" by simp
  with r Cons.IH [OF v' lv lw] show ?case by simp
qed

lemma keep_common_fields_mapping_vs_leaf:
  "lookup f p = Some (Dict kvs) \<Longrightarrow> lookup s p = Some (Leaf x) \<Longrightarrow>
   keep_common_fields f s = Inl AttributeError"
proof (induction p arbitrary: f s)
  case Nil
  then show ?case by auto
next
  case (Cons k p)
  from Cons.prems(1) obtain fkvs v where f: "f = Dict fkvs" and v: "map_of fkvs k = Some v"
    and lv: "lookup v p = Some (Dict kvs)"
    by (cases f) (auto split: option.splits)
  from Cons.prems(2) obtain svs sw where s: "s = Dict svs" and sw: "map_of svs k = Some sw"
    and lw: "lookup sw p = Some (Leaf x)"
    by (cases s) (auto split: option.splits)
  from Cons.IH [OF lv lw] have bad: "keep_common_fields v sw = Inl AttributeError" .
  show ?case
  proof (cases "keep_common_items fkvs svs")
    case (Inl e)
    with keep_common_fields_error(2) have "e = AttributeError" by blast
    with Inl f s show ?thesis by simp
  next
    case (Inr items)
    from keep_common_items_defined [OF Inr v sw] bad show ?thesis by simp
  qed
qed

lemma lookup_skel_Leaf:
  "skel a = skel b \<Longrightarrow> lookup a p = Some (Leaf t) \<Longrightarrow> \<exists>u. lookup b p = Some (Leaf u)"
proof -
  assume eq: "skel a = skel b" and l: "lookup a p = Some (Leaf t)"
  have "map_option skel (lookup b p) = lookup (skel b) p" by (simp add: lookup_map_nest)
  also have "\<dots> = map_option skel (lookup a p)" by (simp add: eq [symmetric] lookup_map_nest)
  finally have "map_option skel (lookup b p) = Some (Leaf ())" using l by simp
  then obtain m where "lookup b p = Some m" "skel m = Leaf ()" by auto
  then show ?thesis by (cases m) auto
qed

lemma lookup_skel_Dict:
  "skel a = skel b \<Longrightarrow> lookup a p = Some (Dict kvs) \<Longrightarrow> \<exists>us. lookup b p = Some (Dict us)"
proof -
  assume eq: "skel a = skel b" and l: "lookup a p = Some (Dict kvs)"
  have "map_option skel (lookup b p) = lookup (skel b) p" by (simp add: lookup_map_nest)
  also have "\<dots> = map_option skel (lookup a p)" by (simp add: eq [symmetric] lookup_map_nest)
  finally have "map_option skel (lookup b p) = Some (skel (Dict kvs))" using l by simp
  then obtain m where "lookup b p = Some m" "skel m = skel (Dict kvs)" by auto
  then show ?thesis by (cases m) auto
qed

lemma relabelled_spec_has_label:
  assumes "set_label_to_one (placeholders [] spec) = Inr g \<or> set_label_to_zero (placeholders [] spec) = Inr g"
  shows "\<exists>s. getitem spec ''label'' = Inr (Leaf s)"
proof -
  from assms obtain kvs l where "placeholders [] spec = Dict kvs"
    "map_of kvs ''label'' = Some (Leaf l)"
    by (auto simp: set_label_to_one_Inr set_label_to_zero_Inr)
  then have "lookup (placeholders [] spec) [''label''] = Some (Leaf l)" by simp
  from lookup_skel_Leaf [OF placeholders_skel this]
  obtain u where "lookup spec [''label''] = Some (Leaf u)" by blast
  then show ?thesis by (cases spec) (auto split: option.splits)
qed

lemma filtered_label:
  assumes "keep_common_fields (Dict kvs) spec = Inr g"
    and "map_of kvs ''label'' = Some (Leaf l)"
    and "getitem spec ''label'' = Inr w"
  shows "getitem g ''label'' = Inr (Leaf l)"
proof -
  from assms(3) obtain svs where s: "spec = Dict svs" and w: "map_of svs ''label'' = Some w"
    by (cases spec) (auto split: option.splits)
  with assms(1) obtain items where g: "g = Dict items"
    and items: "keep_common_items kvs svs = Inr items"
    by (auto split: sum.splits)
  from keep_common_items_map_of [OF items, of "''label''"] assms(2) w
  have "map_of items ''label'' = Some (Leaf l)" by simp
  with g show ?thesis by simp
qed

lemma run_label:
  assumes "run g x = Inr r" and "getitem g ''label'' = Inr (Leaf l)"
  shows "\<exists>t. getitem r ''label'' = Inr (Leaf t) \<and> eval x l = Inr t"
proof -
  from assms(2) obtain kvs where g: "g = Dict kvs" and l: "map_of kvs ''label'' = Some (Leaf l)"
    by (cases g) (auto split: option.splits)
  with assms(1) obtain items where r: "r = Dict items" and items: "run_items kvs x = Inr items"
    by (auto split: sum.splits)
  from run_items_defined [OF items l] obtain v where v: "run (Leaf l) x = Inr v" by blast
  then obtain t where t: "eval x l = Inr t" "v = Leaf t" by (auto split: sum.splits)
  from run_items_map_of [OF items, of "''label''"] l v t r show ?thesis by simp
qed

lemma composed_labels:
  assumes "concatenate in_ds out_ds = Inr ds"
  obtains gi go s li lo where
    "ds = ConcatenateDataset s (MapDataset gi in_ds) (MapDataset go out_ds)"
    "getitem gi ''label'' = Inr (Leaf (OnesLike li))"
    "getitem go ''label'' = Inr (Leaf (ZerosLike lo))"
proof -
  from assms obtain ga gb gi go s where
    ga: "set_label_to_one (placeholders [] (element_spec in_ds)) = Inr ga" and
    gb: "set_label_to_zero (placeholders [] (element_spec out_ds)) = Inr gb" and
    gi: "keep_common_fields ga (element_spec out_ds) = Inr gi" and
    go: "keep_common_fields gb (element_spec in_ds) = Inr go" and
    ds: "ds = ConcatenateDataset s (MapDataset gi in_ds) (MapDataset go out_ds)"
    by (rule concatenate_parts)
  from ga obtain ka li where a: "ga = Dict (AList.update ''label'' (Leaf (OnesLike li)) ka)"
    by (auto simp: set_label_to_one_Inr)
  from gb obtain kb lo where b: "gb = Dict (AList.update ''label'' (Leaf (ZerosLike lo)) kb)"
    by (auto simp: set_label_to_zero_Inr)
  from ga obtain si where si: "getitem (element_spec in_ds) ''label'' = Inr (Leaf si)"
    using relabelled_spec_has_label by blast
  from gb obtain so where so: "getitem (element_spec out_ds) ''label'' = Inr (Leaf so)"
    using relabelled_spec_has_label by blast
  have "getitem gi ''label'' = Inr (Leaf (OnesLike li))"
    by (rule filtered_label [OF gi [unfolded a] _ so]) (simp add: update_conv')
  moreover have "getitem go ''label'' = Inr (Leaf (ZerosLike lo))"
    by (rule filtered_label [OF go [unfolded b] _ si]) (simp add: update_conv')
  ultimately show thesis using ds that by blast
qed

lemma pull_label_ones:
  assumes "apply_graph g q = Inr r" and "getitem g ''label'' = Inr (Leaf (OnesLike l))"
  shows "\<exists>t. getitem r ''label'' = Inr (Leaf t) \<and> elems t = replicate (prod_list (shape t)) 1"
proof -
  from assms(1) obtain x where "run g x = Inr r"
    by (auto simp: apply_graph_def split: sum.splits)
  from run_label [OF this assms(2)] obtain t where
    t: "getitem r ''label'' = Inr (Leaf t)" "eval x (OnesLike l) = Inr t" by blast
  from t(2) obtain t0 where "t = ones_like t0" by (auto split: sum.splits)
  with t(1) show ?thesis by simp
qed

lemma pull_label_zeros:
  assumes "apply_graph g q = Inr r" and "getitem g ''label'' = Inr (Leaf (ZerosLike l))"
  shows "\<exists>t. getitem r ''label'' = Inr (Leaf t) \<and> elems t = replicate (prod_list (shape t)) 0"
proof -
  from assms(1) obtain x where "run g x = Inr r"
    by (auto simp: apply_graph_def split: sum.splits)
  from run_label [OF this assms(2)] obtain t where
    t: "getitem r ''label'' = Inr (Leaf t)" "eval x (ZerosLike l) = Inr t" by blast
  from t(2) obtain t0 where "t = zeros_like t0" by (auto split: sum.splits)
  with t(1) show ?thesis by simp
qed

subsection \<open>Well-formed sources\<close>

lemma eval_defined:
  "lookup x (source_path s) = Some (Leaf t) \<Longrightarrow> \<exists>u. eval x s = Inr u"
  by (induction s) auto

lemma conforms_skel: "conforms x spec \<Longrightarrow> skel x = skel spec"
proof -
  assume "conforms x spec"
  then have "rel_nest (\<lambda>a b. () = ()) x spec"
    unfolding conforms_def by (rule nest.rel_mono_strong) simp
  then have "rel_nest (=) (skel x) (skel spec)" by (simp add: nest.rel_map)
  then show ?thesis by (simp add: nest.rel_eq)
qed

lemma set_nest_Dict: "set_nest (Dict kvs) = (\<Union>kv\<in>set kvs. set_nest (snd kv))"
  by (auto simp: snds.simps)

lemma set_nest_Dict_Nil: "set_nest (Dict []) = {}"
  by simp

lemma set_nest_Dict_Cons: "set_nest (Dict ((k, v) # kvs)) = set_nest v \<union> set_nest (Dict kvs)"
  by (simp add: set_nest_Dict del: nest.set)

lemma placeholders_leaves:
  "distinct_keys sub \<Longrightarrow> s \<in> set_nest (placeholders p0 sub) \<Longrightarrow>
   \<exists>q t. source_path s = p0 @ q \<and> lookup sub q = Some (Leaf t)"
proof (induction p0 sub arbitrary: s rule: placeholders.induct)
  case (1 p t)
  then show ?case by auto
next
  case (2 p kvs)
  from "2.prems"(2) obtain k v where kv: "(k, v) \<in> set kvs"
    and s: "s \<in> set_nest (placeholders (p @ [k]) v)"
    by (auto simp: set_nest_Dict simp del: nest.set)
  from "2.prems"(1) kv have dv: "distinct_keys v" by (auto simp: list_all_iff)
  from "2.prems"(1) kv have m: "map_of kvs k = Some v" by simp
  from "2.IH" [OF kv refl dv s] obtain q t where
    "source_path s = (p @ [k]) @ q" "lookup v q = Some (Leaf t)" by blast
  with m have "source_path s = p @ (k # q) \<and> lookup (Dict kvs) (k # q) = Some (Leaf t)" by simp
  then show ?case by blast
qed

lemma keep_common_fields_leaves:
  "\<forall>r. keep_common_fields (f :: 'a nest) (s :: 'b nest) = Inr r \<longrightarrow> set_nest r \<subseteq> set_nest f"
  "\<forall>items. keep_common_items (kvs :: (string \<times> 'a nest) list) (svs :: (string \<times> 'b nest) list) = Inr items \<longrightarrow>
      set_nest (Dict items) \<subseteq> set_nest (Dict kvs)"
proof (induction f s and kvs svs rule: keep_common_fields_keep_common_items.induct)
  case (1 t spec)
  then show ?case by simp
next
  case (2 kvs s)
  then show ?case by simp
next
  case (3 kvs svs)
  then show ?case by (auto split: sum.splits simp del: nest.set)
next
  case (4 svs)
  then show ?case by simp
next
  case (5 k v kvs svs)
  show ?case
  proof (intro allI impI)
    fix items
    assume a: "keep_common_items ((k, v) # kvs) svs = Inr items"
    show "set_nest (Dict items) \<subseteq> set_nest (Dict ((k, v) # kvs))"
    proof (cases "map_of svs k")
      case None
      with a have "keep_common_items kvs svs = Inr items" by simp
      with "5.IH"(1) [OF None] have "set_nest (Dict items) \<subseteq> set_nest (Dict kvs)" by blast
      then show ?thesis by (auto simp: set_nest_Dict_Cons simp del: nest.set)
    next
      case (Some w)
      with a obtain v' r' where v': "keep_common_fields v w = Inr v'"
        and r': "keep_common_items kvs svs = Inr r'" and i: "items = (k, v') # r'"
        by (auto split: sum.splits)
      from "5.IH"(2) [OF Some] v' have 1: "set_nest v' \<subseteq> set_nest v" by blast
      from "5.IH"(3) [OF Some v'] r' have 2: "set_nest (Dict r') \<subseteq> set_nest (Dict kvs)" by blast
      from 1 2 show ?thesis unfolding i set_nest_Dict_Cons by blast
    qed
  qed
qed

lemma update_leaves:
  "set_nest (Dict (AList.update k v kvs)) \<subseteq> set_nest v \<union> set_nest (Dict kvs)"
  by (induction kvs) (auto simp: set_nest_Dict_Cons simp del: nest.set)

lemma map_of_leaves: "map_of kvs k = Some v \<Longrightarrow> set_nest v \<subseteq> set_nest (Dict kvs)"
  by (induction kvs) (auto simp: set_nest_Dict_Cons simp del: nest.set split: if_splits)

lemma set_label_to_one_leaves:
  assumes "set_label_to_one f = Inr f'" and "s \<in> set_nest f'"
  shows "\<exists>s0\<in>set_nest f. source_path s = source_path s0"
proof -
  from assms(1) obtain kvs l where f: "f = Dict kvs" "map_of kvs ''label'' = Some (Leaf l)"
    "f' = Dict (AList.update ''label'' (Leaf (OnesLike l)) kvs)"
    by (auto simp: set_label_to_one_Inr)
  from map_of_leaves [OF f(2)] have l: "l \<in> set_nest f" unfolding f(1) by simp
  from assms(2) update_leaves [of "''label''" "Leaf (OnesLike l)" kvs]
  have "s = OnesLike l \<or> s \<in> set_nest f" unfolding f by auto
  with l show ?thesis by auto
qed

lemma set_label_to_zero_leaves:
  assumes "set_label_to_zero f = Inr f'" and "s \<in> set_nest f'"
  shows "\<exists>s0\<in>set_nest f. source_path s = source_path s0"
proof -
  from assms(1) obtain kvs l where f: "f = Dict kvs" "map_of kvs ''label'' = Some (Leaf l)"
    "f' = Dict (AList.update ''label'' (Leaf (ZerosLike l)) kvs)"
    by (auto simp: set_label_to_zero_Inr)
  from map_of_leaves [OF f(2)] have l: "l \<in> set_nest f" unfolding f(1) by simp
  from assms(2) update_leaves [of "''label''" "Leaf (ZerosLike l)" kvs]
  have "s = ZerosLike l \<or> s \<in> set_nest f" unfolding f by auto
  with l show ?thesis by auto
qed

lemma run_defined:
  "(\<forall>s\<in>set_nest g. \<exists>t. eval x s = Inr t) \<longrightarrow> (\<exists>r. run g x = Inr r)"
  "(\<forall>s\<in>set_nest (Dict kvs). \<exists>t. eval x s = Inr t) \<longrightarrow> (\<exists>items. run_items kvs x = Inr items)"
proof (induction g x and kvs x rule: run_run_items.induct)
  case (1 s x)
  then show ?case by (auto split: sum.splits)
next
  case (2 kvs x)
  then show ?case by (auto split: sum.splits simp del: nest.set)
next
  case (3 x)
  then show ?case by simp
next
  case (4 k g kvs x)
  show ?case
  proof
    assume a: "\<forall>s\<in>set_nest (Dict ((k, g) # kvs)). \<exists>t. eval x s = Inr t"
    then have "\<forall>s\<in>set_nest g. \<exists>t. eval x s = Inr t"
      and b: "\<forall>s\<in>set_nest (Dict kvs). \<exists>t. eval x s = Inr t"
      unfolding set_nest_Dict_Cons by blast+
    with "4.IH"(1) obtain r where r: "run g x = Inr r" by blast
    from "4.IH"(2) [OF r] b obtain items where "run_items kvs x = Inr items" by blast
    with r show "\<exists>items. run_items ((k, g) # kvs) x = Inr items" by simp
  qed
qed

lemma traced_graph_runs:
  assumes "distinct_keys spec" and "conforms x spec"
    and "\<forall>s\<in>set_nest g. \<exists>s0\<in>set_nest (placeholders [] spec). source_path s = source_path s0"
  shows "\<exists>r. run g x = Inr r"
proof -
  have "\<exists>t. eval x s = Inr t" if "s \<in> set_nest g" for s
  proof -
    from that assms(3) obtain s0 where s0: "s0 \<in> set_nest (placeholders [] spec)"
      and p: "source_path s = source_path s0" by blast
    from placeholders_leaves [OF assms(1) s0] obtain q t where
      q: "source_path s0 = q" "lookup spec q = Some (Leaf t)" by auto
    from conforms_skel [OF assms(2)] have "skel spec = skel x" by simp
    from lookup_skel_Leaf [OF this q(2)] obtain u where "lookup x q = Some (Leaf u)" by blast
    with p q(1) have "lookup x (source_path s) = Some (Leaf u)" by simp
    then show ?thesis by (rule eval_defined)
  qed
  with run_defined(1) [of g x] show ?thesis by blast
qed

lemma composed_stream_total:
  assumes "well_formed in_ds" and "well_formed out_ds"
    and "concatenate in_ds out_ds = Inr ds"
  shows "\<forall>q\<in>set (elements ds). \<exists>r. q = Inr r"
proof -
  from assms(3) obtain ga gb gi go s where
    ga: "set_label_to_one (placeholders [] (element_spec in_ds)) = Inr ga" and
    gb: "set_label_to_zero (placeholders [] (element_spec out_ds)) = Inr gb" and
    gi: "keep_common_fields ga (element_spec out_ds) = Inr gi" and
    go: "keep_common_fields gb (element_spec in_ds) = Inr go" and
    ds: "ds = ConcatenateDataset s (MapDataset gi in_ds) (MapDataset go out_ds)"
    by (rule concatenate_parts)
  have li: "\<forall>s\<in>set_nest gi. \<exists>s0\<in>set_nest (placeholders [] (element_spec in_ds)).
      source_path s = source_path s0"
    using keep_common_fields_leaves(1) [of ga "element_spec out_ds"] gi
      set_label_to_one_leaves [OF ga] by blast
  have lo: "\<forall>s\<in>set_nest go. \<exists>s0\<in>set_nest (placeholders [] (element_spec out_ds)).
      source_path s = source_path s0"
    using keep_common_fields_leaves(1) [of gb "element_spec in_ds"] go
      set_label_to_zero_leaves [OF gb] by blast
  have "\<exists>r. apply_graph gi q = Inr r" if "q \<in> set (elements in_ds)" for q
  proof -
    from assms(1) have "\<forall>q\<in>set (elements in_ds).
        case q of Inl e \<Rightarrow> False | Inr x \<Rightarrow> conforms x (element_spec in_ds)"
      by (simp add: well_formed_def list_all_iff)
    with that have "case q of Inl e \<Rightarrow> False | Inr x \<Rightarrow> conforms x (element_spec in_ds)"
      by blast
    then obtain x where x: "q = Inr x" "conforms x (element_spec in_ds)"
      by (cases q) simp_all
    from assms(1) have "distinct_keys (element_spec in_ds)" by (simp add: well_formed_def)
    from traced_graph_runs [OF this x(2) li] x(1) show ?thesis
      by (simp add: apply_graph_def)
  qed
  moreover have "\<exists>r. apply_graph go q = Inr r" if "q \<in> set (elements out_ds)" for q
  proof -
    from assms(2) have "\<forall>q\<in>set (elements out_ds).
        case q of Inl e \<Rightarrow> False | Inr x \<Rightarrow> conforms x (element_spec out_ds)"
      by (simp add: well_formed_def list_all_iff)
    with that have "case q of Inl e \<Rightarrow> False | Inr x \<Rightarrow> conforms x (element_spec out_ds)"
      by blast
    then obtain x where x: "q = Inr x" "conforms x (element_spec out_ds)"
      by (cases q) simp_all
    from assms(2) have "distinct_keys (element_spec out_ds)" by (simp add: well_formed_def)
    from traced_graph_runs [OF this x(2) lo] x(1) show ?thesis
      by (simp add: apply_graph_def)
  qed
  ultimately show ?thesis by (auto simp: ds)
qed

lemma ex_well_formed: "well_formed ex_in" "well_formed ex_out"
  by (simp_all add: well_formed_def conforms_def tensor_conforms_def ex_defs)

subsection \<open>Loading\<close>

lemma load_concatenate:
  "load self preprocess_fn =
     concatenate (in_dataset self preprocess_fn) (out_dataset self preprocess_fn)"
  by (simp add: load_def)

subsection \<open>The example composition\<close>

lemma ex_concatenate: "concatenate ex_in ex_out = Inr ex_composed"
  by (simp add: ex_defs run_defs)

lemma ex_elements:
  "elements ex_composed =
    [Inr (Dict [(''x'', Leaf (img 1 2)), (''label'', Leaf (scalar 1))]),
     Inr (Dict [(''x'', Leaf (img 3 4)), (''label'', Leaf (scalar 1))]),
     Inr (Dict [(''x'', Leaf (img 5 6)), (''label'', Leaf (scalar 0))]),
     Inr (Dict [(''x'', Leaf (img 7 8)), (''label'', Leaf (scalar 0))]),
     Inr (Dict [(''x'', Leaf (img 9 0)), (''label'', Leaf (scalar 0))])]"
  by (simp add: ex_defs run_defs)

lemma map_of_map_keyed:
  "map_of (map (\<lambda>(k, v). (k, f k v)) al) k = map_option (f k) (map_of al k)"
  by (induction al) auto

lemma unlabelled_spec_one:
  assumes "getitem spec ''label'' = Inl (KeyError ''label'')"
  shows "set_label_to_one (placeholders [] spec) = Inl (KeyError ''label'')"
    and "set_label_to_zero (placeholders [] spec) = Inl (KeyError ''label'')"
proof -
  from assms obtain svs where s: "spec = Dict svs" and n: "map_of svs ''label'' = None"
    by (cases spec) (auto split: option.splits)
  have "map_of (map (\<lambda>(k, v). (k, placeholders [k] v)) svs) ''label'' = None"
    using n by (simp add: map_of_map_keyed)
  with s show "set_label_to_one (placeholders [] spec) = Inl (KeyError ''label'')"
    and "set_label_to_zero (placeholders [] spec) = Inl (KeyError ''label'')"
    by (simp_all add: set_label_to_one_def set_label_to_zero_def)
qed

subsection \<open>Sources without a common field\<close>

lemma labelled_spec_relabels:
  assumes "getitem spec ''label'' = Inr (Leaf s)"
  shows "\<exists>ga. set_label_to_one (placeholders [] spec) = Inr ga"
proof -
  from assms obtain svs where s: "spec = Dict svs" and l: "map_of svs ''label'' = Some (Leaf s)"
    by (cases spec) (auto split: option.splits)
  have "map_of (map (\<lambda>(k, v). (k, placeholders [k] v)) svs) ''label'' =
      Some (Leaf (Component [''label''] s))"
    using l by (simp add: map_of_map_keyed)
  with s show ?thesis by (simp add: set_label_to_one_def)
qed

lemma keep_common_items_disjoint:
  "fst ` set kvs \<inter> fst ` set svs = {} \<Longrightarrow> keep_common_items kvs svs = Inr []"
proof (induction kvs)
  case Nil
  then show ?case by simp
next
  case (Cons kv kvs)
  obtain k v where kv: "kv = (k, v)" by (cases kv)
  with Cons.prems have "k \<notin> fst ` set svs" by auto
  then have "map_of svs k = None" by (simp add: map_of_eq_None_iff)
  moreover from Cons.prems have "fst ` set kvs \<inter> fst ` set svs = {}" by auto
  ultimately show ?case using Cons.IH kv by simp
qed

lemma mapped_records_keys:
  assumes "Inr r \<in> set (elements (MapDataset g d))"
  shows "keys_at r p = keys_at g p"
proof -
  from assms obtain q where "apply_graph g q = Inr r" by auto
  then obtain x where "run g x = Inr r"
    by (auto simp: apply_graph_def split: sum.splits)
  with run_skel(1) have "skel r = skel g" by blast
  then show ?thesis by (rule keys_at_skel_eq)
qed

lemma ex_deep_concatenate: "concatenate ex_in_deep ex_out_deep = Inr ex_deep_composed"
  by (simp add: ex_defs run_defs)

lemma ex_deep_elements:
  "elements ex_deep_composed = [Inr (deep_labelled 1 2 1), Inr (deep_labelled 5 6 0)]"
  by (simp add: ex_defs run_defs)

subsection \<open>The accumulator\<close>

lemma contribution_Nil: "contribution [] pr = zero_stats"
  by (simp add: contribution_def zero_stats_def)

lemma contribution_append:
  "contribution (xs @ ys) pr = add_stats (contribution xs pr) (contribution ys pr)"
  by (simp add: contribution_def add_stats_def)

lemma contribution_mset:
  assumes "mset xs = mset ys"
  shows "contribution xs pr = contribution ys pr"
proof -
  have "sum_list (map f xs) = sum_list (map f ys)" for f :: "example \<Rightarrow> real"
  proof -
    have "sum_list (map f xs) = sum_mset (image_mset f (mset xs))"
      by (simp flip: sum_mset_sum_list)
    also have "\<dots> = sum_mset (image_mset f (mset ys))" by (simp add: assms)
    also have "\<dots> = sum_list (map f ys)" by (simp flip: sum_mset_sum_list)
    finally show ?thesis .
  qed
  then show ?thesis by (simp add: contribution_def)
qed

lemma map_of_tabulate:
  "pr \<in> set ps \<Longrightarrow> map_of (map (\<lambda>pr. (pr, g pr)) ps) pr = Some (g pr)"
  by (induction ps) auto

lemma add_batch_step:
  assumes "add_batch tol probs m st = Inr st'"
    and "\<forall>pr\<in>set (member_pairs m). stats_of st pr = contribution exs pr"
    and "fst ` set (pair_sums st) \<subseteq> set (member_pairs m)"
  shows "num_examples st' = num_examples st + length (batch_examples probs)"
    and "pair_sums st' =
      map (\<lambda>pr. (pr, contribution (exs @ batch_examples probs) pr)) (member_pairs m)"
proof -
  from assms(1) have v: "valid_batch tol probs m"
    by (auto simp: add_batch_def split: if_splits)
  with assms(1) have st': "st' = \<lparr>num_examples = num_examples st + length (batch_examples probs),
      pair_sums =
        map (\<lambda>pr. (pr, add_stats (stats_of st pr) (contribution (batch_examples probs) pr)))
          (member_pairs m)
        @ filter (\<lambda>(pr, s). pr \<notin> set (member_pairs m)) (pair_sums st)\<rparr>"
    by (simp add: add_batch_def Let_def stats_of_def)
  from st' show "num_examples st' = num_examples st + length (batch_examples probs)" by simp
  from assms(3) have "filter (\<lambda>(pr, s). pr \<notin> set (member_pairs m)) (pair_sums st) = []"
    by (auto simp: filter_empty_conv)
  moreover have "map (\<lambda>pr. (pr, add_stats (stats_of st pr) (contribution (batch_examples probs) pr)))
      (member_pairs m) =
    map (\<lambda>pr. (pr, contribution (exs @ batch_examples probs) pr)) (member_pairs m)"
    using assms(2) by (simp add: contribution_append)
  ultimately show "pair_sums st' =
      map (\<lambda>pr. (pr, contribution (exs @ batch_examples probs) pr)) (member_pairs m)"
    using st' by simp
qed

lemma add_batches_state:
  assumes "add_batches tol m bs st = Inr st'"
    and "\<forall>pr\<in>set (member_pairs m). stats_of st pr = contribution exs pr"
    and "fst ` set (pair_sums st) \<subseteq> set (member_pairs m)"
  shows "num_examples st' = num_examples st + length (concat (map batch_examples bs)) \<and>
    (bs \<noteq> [] \<longrightarrow> pair_sums st' =
       map (\<lambda>pr. (pr, contribution (exs @ concat (map batch_examples bs)) pr)) (member_pairs m))"
  using assms
proof (induction bs arbitrary: st exs)
  case Nil
  then show ?case by simp
next
  case (Cons b bs)
  from Cons.prems(1) obtain st1 where s1: "add_batch tol b m st = Inr st1"
    and rest: "add_batches tol m bs st1 = Inr st'"
    by (auto split: sum.splits)
  note step = add_batch_step [OF s1 Cons.prems(2,3)]
  have inv1: "\<forall>pr\<in>set (member_pairs m). stats_of st1 pr = contribution (exs @ batch_examples b) pr"
    by (simp add: stats_of_def step(2) map_of_tabulate)
  have inv2: "fst ` set (pair_sums st1) \<subseteq> set (member_pairs m)"
    by (auto simp: step(2))
  show ?case
  proof (cases bs)
    case Nil
    with rest have "st' = st1" by simp
    with Nil step show ?thesis by simp
  next
    case (Cons c cs)
    with Cons.IH [OF rest inv1 inv2] step show ?thesis by simp
  qed
qed

lemma add_batches_from_empty:
  assumes "add_batches tol m bs empty_state = Inr st"
  shows "num_examples st = length (concat (map batch_examples bs))"
    and "bs \<noteq> [] \<Longrightarrow> pair_sums st =
       map (\<lambda>pr. (pr, contribution (concat (map batch_examples bs)) pr)) (member_pairs m)"
proof -
  have "\<forall>pr\<in>set (member_pairs m). stats_of empty_state pr = contribution [] pr"
    by (simp add: stats_of_def empty_state_def contribution_Nil)
  moreover have "fst ` set (pair_sums empty_state) \<subseteq> set (member_pairs m)"
    by (simp add: empty_state_def)
  ultimately have *: "num_examples st = num_examples empty_state + length (concat (map batch_examples bs)) \<and>
    (bs \<noteq> [] \<longrightarrow> pair_sums st =
       map (\<lambda>pr. (pr, contribution ([] @ concat (map batch_examples bs)) pr)) (member_pairs m))"
    by (rule add_batches_state [OF assms])
  from * show "num_examples st = length (concat (map batch_examples bs))"
    by (simp add: empty_state_def)
  from * show "bs \<noteq> [] \<Longrightarrow> pair_sums st =
       map (\<lambda>pr. (pr, contribution (concat (map batch_examples bs)) pr)) (member_pairs m)"
    by simp
qed

lemma ex_batch_examples:
  "batch_examples ex_batch_first = [[[1/2, 1/2], [1/4, 3/4]]]"
  "batch_examples ex_batch_second = [[[1, 0], [1/2, 1/2]]]"
  "batch_examples ex_batch_both = [[[1/2, 1/2], [1/4, 3/4]], [[1, 0], [1/2, 1/2]]]"
  by (simp_all add: batch_examples_def ex_batch_first_def ex_batch_second_def ex_batch_both_def)

lemma ex_batch_valid:
  "valid_batch 0 ex_batch_first 2" "valid_batch 0 ex_batch_second 2" "valid_batch 0 ex_batch_both 2"
  by (simp_all add: valid_batch_def ex_batch_first_def ex_batch_second_def ex_batch_both_def)

lemma ex_batches_accepted:
  "\<not> isl (add_batches 0 2 [ex_batch_first, ex_batch_second] empty_state)"
  "\<not> isl (add_batches 0 2 [ex_batch_second, ex_batch_first] empty_state)"
  "\<not> isl (add_batches 0 2 [ex_batch_both] empty_state)"
  by (simp_all add: add_batch_def ex_batch_valid Let_def)

section \<open>Properties\<close>

text \<open>
  C1 (as amended). The label is overwritten, never created. If the records of the
  in-distribution source have no \<open>label\<close> field, composing fails with
  \<open>KeyError ''label''\<close>; if those of the out-of-distribution source have none, composing
  fails. Whenever composing succeeds, both sources declared a tensor under \<open>label\<close>,
  and in the composed stream the label of every record of the in-distribution part is
  all ones, that of every record of the out-of-distribution part all zeros.
\<close>

theorem label_not_synthesized:
  "(getitem (element_spec in_ds) ''label'' = Inl (KeyError ''label'') \<longrightarrow>
      concatenate in_ds out_ds = Inl (KeyError ''label'')) \<and>
   (getitem (element_spec out_ds) ''label'' = Inl (KeyError ''label'') \<longrightarrow>
      (\<exists>e. concatenate in_ds out_ds = Inl e)) \<and>
   (concatenate in_ds out_ds = Inr ds \<longrightarrow>
      (\<exists>si so. getitem (element_spec in_ds) ''label'' = Inr (Leaf si) \<and>
               getitem (element_spec out_ds) ''label'' = Inr (Leaf so)) \<and>
      (\<forall>i r. i < length (elements in_ds) \<and> elements ds ! i = Inr r \<longrightarrow>
         (\<exists>t. getitem r ''label'' = Inr (Leaf t) \<and> elems t = replicate (prod_list (shape t)) 1)) \<and>
      (\<forall>i r. length (elements in_ds) \<le> i \<and> i < length (elements ds) \<and> elements ds ! i = Inr r \<longrightarrow>
         (\<exists>t. getitem r ''label'' = Inr (Leaf t) \<and> elems t = replicate (prod_list (shape t)) 0)))"
proof (intro conjI impI)
  assume "getitem (element_spec in_ds) ''label'' = Inl (KeyError ''label'')"
  from unlabelled_spec_one(1) [OF this]
  show "concatenate in_ds out_ds = Inl (KeyError ''label'')"
    by (simp add: concatenate_def ds_map_def format_in_ds_def)
next
  assume "getitem (element_spec out_ds) ''label'' = Inl (KeyError ''label'')"
  from unlabelled_spec_one(2) [OF this]
  have "format_out_ds (element_spec in_ds) (placeholders [] (element_spec out_ds)) =
      Inl (KeyError ''label'')"
    by (simp add: format_out_ds_def)
  then show "\<exists>e. concatenate in_ds out_ds = Inl e"
    by (cases "format_in_ds (element_spec out_ds) (placeholders [] (element_spec in_ds))")
       (simp_all add: concatenate_def ds_map_def)
next
  assume c: "concatenate in_ds out_ds = Inr ds"
  then obtain ga gb where
    "set_label_to_one (placeholders [] (element_spec in_ds)) = Inr ga"
    "set_label_to_zero (placeholders [] (element_spec out_ds)) = Inr gb"
    by (rule concatenate_parts)
  then show "\<exists>si so. getitem (element_spec in_ds) ''label'' = Inr (Leaf si) \<and>
               getitem (element_spec out_ds) ''label'' = Inr (Leaf so)"
    using relabelled_spec_has_label by blast
  from c obtain gi go s li lo where
    ds: "ds = ConcatenateDataset s (MapDataset gi in_ds) (MapDataset go out_ds)" and
    li: "getitem gi ''label'' = Inr (Leaf (OnesLike li))" and
    lo: "getitem go ''label'' = Inr (Leaf (ZerosLike lo))"
    by (rule composed_labels)
  show "\<forall>i r. i < length (elements in_ds) \<and> elements ds ! i = Inr r \<longrightarrow>
         (\<exists>t. getitem r ''label'' = Inr (Leaf t) \<and> elems t = replicate (prod_list (shape t)) 1)"
  proof (intro allI impI)
    fix i r
    assume "i < length (elements in_ds) \<and> elements ds ! i = Inr r"
    then have "i < length (elements in_ds)" "elements ds ! i = Inr r" by simp_all
    then have "apply_graph gi (elements in_ds ! i) = Inr r"
      by (simp add: ds nth_append)
    from pull_label_ones [OF this li]
    show "\<exists>t. getitem r ''label'' = Inr (Leaf t) \<and> elems t = replicate (prod_list (shape t)) 1" .
  qed
  show "\<forall>i r. length (elements in_ds) \<le> i \<and> i < length (elements ds) \<and> elements ds ! i = Inr r \<longrightarrow>
         (\<exists>t. getitem r ''label'' = Inr (Leaf t) \<and> elems t = replicate (prod_list (shape t)) 0)"
  proof (intro allI impI)
    fix i r
    assume "length (elements in_ds) \<le> i \<and> i < length (elements ds) \<and> elements ds ! i = Inr r"
    then have "length (elements in_ds) \<le> i" "i < length (elements ds)" "elements ds ! i = Inr r"
      by simp_all
    then have "apply_graph go (elements out_ds ! (i - length (elements in_ds))) = Inr r"
      by (simp add: ds nth_append)
    from pull_label_zeros [OF this lo]
    show "\<exists>t. getitem r ''label'' = Inr (Leaf t) \<and> elems t = replicate (prod_list (shape t)) 0" .
  qed
qed

text \<open>The theorem at the example composition.\<close>

theorem label_not_synthesized_witness:
  "getitem (element_spec ex_out_unlabelled) ''label'' = Inl (KeyError ''label'') \<and>
   concatenate ex_out_unlabelled ex_in = Inl (KeyError ''label'') \<and>
   (\<exists>e. concatenate ex_in ex_out_unlabelled = Inl e) \<and>
   concatenate ex_in ex_out = Inr ex_composed \<and>
   getitem (element_spec ex_in) ''label'' = Inr (Leaf label_spec) \<and>
   getitem (element_spec ex_out) ''label'' = Inr (Leaf label_spec) \<and>
   elements ex_composed ! 0 = Inr (labelled 1 2 1) \<and>
   elements ex_composed ! 4 = Inr (labelled 9 0 0) \<and>
   keys_at (labelled 9 0 0) [] = {''x'', ''label''} \<and>
   (\<exists>t. getitem (labelled 1 2 1) ''label'' = Inr (Leaf t) \<and>
        elems t = replicate (prod_list (shape t)) 1) \<and>
   (\<exists>t. getitem (labelled 9 0 0) ''label'' = Inr (Leaf t) \<and>
        elems t = replicate (prod_list (shape t)) 0)"
proof -
  have h: "getitem (element_spec ex_out_unlabelled) ''label'' = Inl (KeyError ''label'')"
    by (simp add: ex_defs)
  have c: "concatenate ex_in ex_out = Inr ex_composed" by (rule ex_concatenate)
  have e: "elements ex_composed ! 0 = Inr (labelled 1 2 1)"
    "elements ex_composed ! 4 = Inr (labelled 9 0 0)"
    by (simp_all add: ex_elements labelled_def)
  have n: "(0::nat) < length (elements ex_in)" "length (elements ex_in) \<le> (4::nat)"
    "(4::nat) < length (elements ex_composed)"
    by (simp_all add: ex_elements) (simp_all add: ex_defs)
  have k: "keys_at (labelled 9 0 0) [] = {''x'', ''label''}"
    "getitem (element_spec ex_in) ''label'' = Inr (Leaf label_spec)"
    "getitem (element_spec ex_out) ''label'' = Inr (Leaf label_spec)"
    by (simp_all add: ex_defs keys_at_def)
  from label_not_synthesized [of ex_out_unlabelled ex_in] h
  have 1: "concatenate ex_out_unlabelled ex_in = Inl (KeyError ''label'')" by blast
  from label_not_synthesized [of ex_in ex_out_unlabelled] h
  have 2: "\<exists>e. concatenate ex_in ex_out_unlabelled = Inl e" by blast
  from label_not_synthesized [of ex_in ex_out ex_composed] c e n
  have 3: "\<exists>t. getitem (labelled 1 2 1) ''label'' = Inr (Leaf t) \<and>
        elems t = replicate (prod_list (shape t)) 1"
    and 4: "\<exists>t. getitem (labelled 9 0 0) ''label'' = Inr (Leaf t) \<and>
        elems t = replicate (prod_list (shape t)) 0"
    by blast+
  from h c e k 1 2 3 4 show ?thesis by blast
qed

text \<open>
  The scenario of the design document: \<open>ex_in\<close> with fields \<open>x\<close>, \<open>label\<close> and
  \<open>ex_out_unlabelled\<close> with fields \<open>x\<close>, \<open>y\<close>. No stream is returned.
\<close>

theorem label_not_synthesized_counterexample:
  "getitem (element_spec ex_out_unlabelled) ''label'' = Inl (KeyError ''label'') \<and>
   concatenate ex_in ex_out_unlabelled = Inl (KeyError ''label'')"
  by (simp add: ex_defs run_defs)

text \<open>
  C2 (as amended). Two sources whose element specifications share no top-level field
  cannot be composed: the call fails, and no dataset, so no stream of empty records,
  is returned. The exception is never \<open>SchemaMismatch\<close>: it is the one of the label
  lookup or of the filter (\<open>KeyError ''label''\<close>, \<open>TypeError\<close>, \<open>AttributeError\<close>) or the
  \<open>InvalidArgumentError\<close> of \<^verbatim>\<open>Dataset.map\<close>. The last is what is raised when the
  in-distribution source declares a tensor under \<open>label\<close> and the other element
  specification is a dictionary: the filter then leaves no field of the
  in-distribution records.
\<close>

theorem disjoint_schemas_fail:
  assumes "keys_at (element_spec in_ds) [] \<inter> keys_at (element_spec out_ds) [] = {}"
  shows "(\<exists>e. concatenate in_ds out_ds = Inl e \<and>
            (e = KeyError ''label'' \<or> e = TypeError \<or> e = AttributeError \<or>
             e = InvalidArgumentError) \<and>
            e \<noteq> SchemaMismatch) \<and>
         (getitem (element_spec in_ds) ''label'' = Inr (Leaf s) \<and> element_spec out_ds = Dict svs \<longrightarrow>
            format_in_ds (element_spec out_ds) (placeholders [] (element_spec in_ds)) = Inr (Dict []) \<and>
            concatenate in_ds out_ds = Inl InvalidArgumentError)"
proof
  show "\<exists>e. concatenate in_ds out_ds = Inl e \<and>
            (e = KeyError ''label'' \<or> e = TypeError \<or> e = AttributeError \<or>
             e = InvalidArgumentError) \<and>
            e \<noteq> SchemaMismatch"
  proof (cases "concatenate in_ds out_ds")
    case (Inl e)
    from concatenate_error [OF Inl] Inl show ?thesis by auto
  next
    case (Inr ds)
    then obtain ga gb where
      "set_label_to_one (placeholders [] (element_spec in_ds)) = Inr ga"
      "set_label_to_zero (placeholders [] (element_spec out_ds)) = Inr gb"
      by (rule concatenate_parts)
    then obtain si so where si: "getitem (element_spec in_ds) ''label'' = Inr (Leaf si)"
      and so: "getitem (element_spec out_ds) ''label'' = Inr (Leaf so)"
      using relabelled_spec_has_label by blast
    from si have "''label'' \<in> keys_at (element_spec in_ds) []"
      by (cases "element_spec in_ds")
         (auto split: option.splits dest: map_of_SomeD intro: rev_image_eqI)
    moreover from so have "''label'' \<in> keys_at (element_spec out_ds) []"
      by (cases "element_spec out_ds")
         (auto split: option.splits dest: map_of_SomeD intro: rev_image_eqI)
    ultimately show ?thesis using assms by blast
  qed
  show "getitem (element_spec in_ds) ''label'' = Inr (Leaf s) \<and> element_spec out_ds = Dict svs \<longrightarrow>
      format_in_ds (element_spec out_ds) (placeholders [] (element_spec in_ds)) = Inr (Dict []) \<and>
      concatenate in_ds out_ds = Inl InvalidArgumentError"
  proof
    assume h: "getitem (element_spec in_ds) ''label'' = Inr (Leaf s) \<and> element_spec out_ds = Dict svs"
    then obtain ga where ga: "set_label_to_one (placeholders [] (element_spec in_ds)) = Inr ga"
      using labelled_spec_relabels by blast
    then obtain gkvs where g: "ga = Dict gkvs" by (auto simp: set_label_to_one_Inr)
    have "skel ga = skel (element_spec in_ds)"
      using set_label_to_one_skel [OF ga] by (simp add: placeholders_skel)
    from keys_at_skel_eq [OF this, of "[]"] g
    have "fst ` set gkvs = keys_at (element_spec in_ds) []" by simp
    with assms h have "fst ` set gkvs \<inter> fst ` set svs = {}" by simp
    then have "keep_common_items gkvs svs = Inr []" by (rule keep_common_items_disjoint)
    with ga g h
    have f: "format_in_ds (element_spec out_ds) (placeholders [] (element_spec in_ds)) = Inr (Dict [])"
      by (simp add: format_in_ds_def)
    then have "ds_map (format_in_ds (element_spec out_ds)) in_ds = Inl InvalidArgumentError"
      by (simp add: ds_map_def)
    then have "concatenate in_ds out_ds = Inl InvalidArgumentError"
      by (simp add: concatenate_def)
    with f show "format_in_ds (element_spec out_ds) (placeholders [] (element_spec in_ds)) = Inr (Dict []) \<and>
      concatenate in_ds out_ds = Inl InvalidArgumentError" by simp
  qed
qed

text \<open>
  The theorem at \<open>ex_in\<close> and \<open>ex_only_b\<close>, where the filter leaves nothing of the records
  of \<open>ex_in\<close>, and at \<open>ex_only_b\<close> and \<open>ex_in\<close>, where the label lookup fails.
\<close>

theorem disjoint_schemas_fail_witness:
  "keys_at (element_spec ex_in) [] \<inter> keys_at (element_spec ex_only_b) [] = {} \<and>
   getitem (element_spec ex_in) ''label'' = Inr (Leaf label_spec) \<and>
   element_spec ex_only_b = Dict [(''b'', Leaf image_spec)] \<and>
   format_in_ds (element_spec ex_only_b) (placeholders [] (element_spec ex_in)) = Inr (Dict []) \<and>
   concatenate ex_in ex_only_b = Inl InvalidArgumentError \<and>
   keys_at (element_spec ex_only_b) [] \<inter> keys_at (element_spec ex_in) [] = {} \<and>
   concatenate ex_only_b ex_in = Inl (KeyError ''label'') \<and>
   (\<exists>e. concatenate ex_only_b ex_in = Inl e \<and>
     (e = KeyError ''label'' \<or> e = TypeError \<or> e = AttributeError \<or> e = InvalidArgumentError) \<and>
     e \<noteq> SchemaMismatch)"
proof -
  have h: "keys_at (element_spec ex_in) [] \<inter> keys_at (element_spec ex_only_b) [] = {}"
    and h': "keys_at (element_spec ex_only_b) [] \<inter> keys_at (element_spec ex_in) [] = {}"
    by (simp_all add: ex_defs keys_at_def)
  have l: "getitem (element_spec ex_in) ''label'' = Inr (Leaf label_spec)"
    "element_spec ex_only_b = Dict [(''b'', Leaf image_spec)]"
    by (simp_all add: ex_defs)
  have c: "concatenate ex_only_b ex_in = Inl (KeyError ''label'')"
    by (simp add: ex_defs run_defs)
  from disjoint_schemas_fail [OF h, of label_spec "[(''b'', Leaf image_spec)]"] l
  have 1: "format_in_ds (element_spec ex_only_b) (placeholders [] (element_spec ex_in)) = Inr (Dict [])"
    and 2: "concatenate ex_in ex_only_b = Inl InvalidArgumentError"
    by blast+
  from disjoint_schemas_fail [OF h', of label_spec "[]"]
  have 3: "\<exists>e. concatenate ex_only_b ex_in = Inl e \<and>
     (e = KeyError ''label'' \<or> e = TypeError \<or> e = AttributeError \<or> e = InvalidArgumentError) \<and>
     e \<noteq> SchemaMismatch"
    by blast
  from h h' l c 1 2 3 show ?thesis by blast
qed

text \<open>Two sources with the single fields \<open>a\<close> and \<open>b\<close>: the error is a \<open>KeyError\<close>.\<close>

theorem disjoint_schemas_counterexample:
  "keys_at (element_spec ex_only_a) [] \<inter> keys_at (element_spec ex_only_b) [] = {} \<and>
   concatenate ex_only_a ex_only_b = Inl (KeyError ''label'') \<and>
   concatenate ex_only_a ex_only_b \<noteq> Inl SchemaMismatch"
  by (simp add: ex_defs run_defs)

text \<open>
  C3. The filter is an intersection at every depth: what \<^verbatim>\<open>_keep_common_fields\<close> returns
  has, at every path \<open>p\<close>, exactly the fields that \<open>feature\<close> and \<open>spec\<close> both have at
  \<open>p\<close>. So every record of the mapped in-distribution source has at every path the
  fields common to the relabelled symbolic element \<open>ga\<close> and the other source's
  element specification, and likewise for the out-of-distribution source. Relabelling
  adds no field and removes none. Whenever composing succeeds, every record of the
  composed stream has at every path exactly the fields that the two relabelled symbolic
  elements \<open>ga\<close> and \<open>gb\<close> both have there.
\<close>

theorem schema_intersection:
  "(keep_common_fields feature spec = Inr g \<longrightarrow>
      (\<forall>p. keys_at g p = keys_at feature p \<inter> keys_at spec p)) \<and>
   (ds_map (format_in_ds (element_spec out_ds)) in_ds = Inr d1 \<longrightarrow>
      (\<exists>ga. set_label_to_one (placeholders [] (element_spec in_ds)) = Inr ga \<and>
            (\<forall>p. keys_at ga p = keys_at (element_spec in_ds) p) \<and>
            (\<forall>r p. Inr r \<in> set (elements d1) \<longrightarrow>
               keys_at r p = keys_at ga p \<inter> keys_at (element_spec out_ds) p))) \<and>
   (ds_map (format_out_ds (element_spec in_ds)) out_ds = Inr d2 \<longrightarrow>
      (\<exists>gb. set_label_to_zero (placeholders [] (element_spec out_ds)) = Inr gb \<and>
            (\<forall>p. keys_at gb p = keys_at (element_spec out_ds) p) \<and>
            (\<forall>r p. Inr r \<in> set (elements d2) \<longrightarrow>
               keys_at r p = keys_at gb p \<inter> keys_at (element_spec in_ds) p))) \<and>
   (concatenate in_ds out_ds = Inr ds \<longrightarrow>
      (\<exists>ga gb.
         set_label_to_one (placeholders [] (element_spec in_ds)) = Inr ga \<and>
         set_label_to_zero (placeholders [] (element_spec out_ds)) = Inr gb \<and>
         (\<forall>p. keys_at ga p = keys_at (element_spec in_ds) p) \<and>
         (\<forall>p. keys_at gb p = keys_at (element_spec out_ds) p) \<and>
         (\<forall>r p. Inr r \<in> set (elements ds) \<longrightarrow> keys_at r p = keys_at ga p \<inter> keys_at gb p)))"
proof (intro conjI impI)
  assume "keep_common_fields feature spec = Inr g"
  then show "\<forall>p. keys_at g p = keys_at feature p \<inter> keys_at spec p"
    by (simp add: keep_common_fields_keys_at)
next
  assume "ds_map (format_in_ds (element_spec out_ds)) in_ds = Inr d1"
  then obtain gi where
    gi: "format_in_ds (element_spec out_ds) (placeholders [] (element_spec in_ds)) = Inr gi"
    and d1: "d1 = MapDataset gi in_ds"
    by (auto simp: ds_map_Inr)
  from gi obtain ga where
    ga: "set_label_to_one (placeholders [] (element_spec in_ds)) = Inr ga" and
    k: "keep_common_fields ga (element_spec out_ds) = Inr gi"
    by (auto simp: format_in_ds_def split: sum.splits)
  have "skel ga = skel (element_spec in_ds)"
    using set_label_to_one_skel [OF ga] by (simp add: placeholders_skel)
  then have sa: "\<forall>p. keys_at ga p = keys_at (element_spec in_ds) p"
    using keys_at_skel_eq by blast
  have "keys_at r p = keys_at ga p \<inter> keys_at (element_spec out_ds) p"
    if "Inr r \<in> set (elements d1)" for r p
    using mapped_records_keys [OF that [unfolded d1], of p] keep_common_fields_keys_at [OF k, of p]
    by simp
  with ga sa show "\<exists>ga. set_label_to_one (placeholders [] (element_spec in_ds)) = Inr ga \<and>
      (\<forall>p. keys_at ga p = keys_at (element_spec in_ds) p) \<and>
      (\<forall>r p. Inr r \<in> set (elements d1) \<longrightarrow>
         keys_at r p = keys_at ga p \<inter> keys_at (element_spec out_ds) p)"
    by blast
next
  assume "ds_map (format_out_ds (element_spec in_ds)) out_ds = Inr d2"
  then obtain go where
    go: "format_out_ds (element_spec in_ds) (placeholders [] (element_spec out_ds)) = Inr go"
    and d2: "d2 = MapDataset go out_ds"
    by (auto simp: ds_map_Inr)
  from go obtain gb where
    gb: "set_label_to_zero (placeholders [] (element_spec out_ds)) = Inr gb" and
    k: "keep_common_fields gb (element_spec in_ds) = Inr go"
    by (auto simp: format_out_ds_def split: sum.splits)
  have "skel gb = skel (element_spec out_ds)"
    using set_label_to_zero_skel [OF gb] by (simp add: placeholders_skel)
  then have sb: "\<forall>p. keys_at gb p = keys_at (element_spec out_ds) p"
    using keys_at_skel_eq by blast
  have "keys_at r p = keys_at gb p \<inter> keys_at (element_spec in_ds) p"
    if "Inr r \<in> set (elements d2)" for r p
    using mapped_records_keys [OF that [unfolded d2], of p] keep_common_fields_keys_at [OF k, of p]
    by simp
  with gb sb show "\<exists>gb. set_label_to_zero (placeholders [] (element_spec out_ds)) = Inr gb \<and>
      (\<forall>p. keys_at gb p = keys_at (element_spec out_ds) p) \<and>
      (\<forall>r p. Inr r \<in> set (elements d2) \<longrightarrow>
         keys_at r p = keys_at gb p \<inter> keys_at (element_spec in_ds) p)"
    by blast
next
  assume "concatenate in_ds out_ds = Inr ds"
  then obtain ga gb gi go s where
    ga: "set_label_to_one (placeholders [] (element_spec in_ds)) = Inr ga" and
    gb: "set_label_to_zero (placeholders [] (element_spec out_ds)) = Inr gb" and
    gi: "keep_common_fields ga (element_spec out_ds) = Inr gi" and
    go: "keep_common_fields gb (element_spec in_ds) = Inr go" and
    ds: "ds = ConcatenateDataset s (MapDataset gi in_ds) (MapDataset go out_ds)"
    by (rule concatenate_parts)
  have "skel ga = skel (element_spec in_ds)"
    using set_label_to_one_skel [OF ga] by (simp add: placeholders_skel)
  then have sa: "\<forall>p. keys_at ga p = keys_at (element_spec in_ds) p"
    using keys_at_skel_eq by blast
  have "skel gb = skel (element_spec out_ds)"
    using set_label_to_zero_skel [OF gb] by (simp add: placeholders_skel)
  then have sb: "\<forall>p. keys_at gb p = keys_at (element_spec out_ds) p"
    using keys_at_skel_eq by blast
  have ki: "keys_at gi p = keys_at ga p \<inter> keys_at gb p" for p
    using keep_common_fields_keys_at [OF gi, of p] sb by simp
  have ko: "keys_at go p = keys_at ga p \<inter> keys_at gb p" for p
    using keep_common_fields_keys_at [OF go, of p] sa by auto
  have "keys_at r p = keys_at ga p \<inter> keys_at gb p" if "Inr r \<in> set (elements ds)" for r p
  proof -
    from that have "Inr r \<in> set (elements (MapDataset gi in_ds)) \<or>
        Inr r \<in> set (elements (MapDataset go out_ds))"
      by (simp add: ds)
    then show ?thesis
    proof
      assume "Inr r \<in> set (elements (MapDataset gi in_ds))"
      from mapped_records_keys [OF this, of p] ki [of p] show ?thesis by simp
    next
      assume "Inr r \<in> set (elements (MapDataset go out_ds))"
      from mapped_records_keys [OF this, of p] ko [of p] show ?thesis by simp
    qed
  qed
  with ga gb sa sb show "\<exists>ga gb.
      set_label_to_one (placeholders [] (element_spec in_ds)) = Inr ga \<and>
      set_label_to_zero (placeholders [] (element_spec out_ds)) = Inr gb \<and>
      (\<forall>p. keys_at ga p = keys_at (element_spec in_ds) p) \<and>
      (\<forall>p. keys_at gb p = keys_at (element_spec out_ds) p) \<and>
      (\<forall>r p. Inr r \<in> set (elements ds) \<longrightarrow> keys_at r p = keys_at ga p \<inter> keys_at gb p)"
    by blast
qed

text \<open>
  The theorem at \<open>ex_in_deep\<close> and \<open>ex_out_deep\<close>. Under \<open>x\<close> the two sources share
  \<open>pixels\<close> only: \<open>meta\<close> is dropped from the records of the one and \<open>extra\<close> from
  those of the other, one level down, and \<open>y\<close> at the top.
\<close>

theorem schema_intersection_witness:
  "keep_common_fields ex_in_deep_relabelled (element_spec ex_out_deep) = Inr ex_in_deep_graph \<and>
   keys_at ex_in_deep_relabelled [''x''] = {''pixels'', ''meta''} \<and>
   keys_at (element_spec ex_out_deep) [''x''] = {''pixels'', ''extra''} \<and>
   keys_at ex_in_deep_graph [''x''] = {''pixels''} \<and>
   keys_at ex_in_deep_graph [''x''] =
     keys_at ex_in_deep_relabelled [''x''] \<inter> keys_at (element_spec ex_out_deep) [''x''] \<and>
   ds_map (format_in_ds (element_spec ex_out_deep)) ex_in_deep =
     Inr (MapDataset ex_in_deep_graph ex_in_deep) \<and>
   set_label_to_one (placeholders [] (element_spec ex_in_deep)) = Inr ex_in_deep_relabelled \<and>
   Inr (deep_labelled 1 2 1) \<in> set (elements (MapDataset ex_in_deep_graph ex_in_deep)) \<and>
   keys_at (deep_labelled 1 2 1) [''x''] =
     keys_at ex_in_deep_relabelled [''x''] \<inter> keys_at (element_spec ex_out_deep) [''x''] \<and>
   ds_map (format_out_ds (element_spec ex_in_deep)) ex_out_deep =
     Inr (MapDataset ex_out_deep_graph ex_out_deep) \<and>
   set_label_to_zero (placeholders [] (element_spec ex_out_deep)) = Inr ex_out_deep_relabelled \<and>
   Inr (deep_labelled 5 6 0) \<in> set (elements (MapDataset ex_out_deep_graph ex_out_deep)) \<and>
   keys_at ex_out_deep_relabelled [] = {''x'', ''y'', ''label''} \<and>
   keys_at (element_spec ex_in_deep) [] = {''x'', ''label''} \<and>
   keys_at (deep_labelled 5 6 0) [] = {''x'', ''label''} \<and>
   keys_at (deep_labelled 5 6 0) [] =
     keys_at ex_out_deep_relabelled [] \<inter> keys_at (element_spec ex_in_deep) [] \<and>
   concatenate ex_in_deep ex_out_deep = Inr ex_deep_composed \<and>
   elements ex_deep_composed = [Inr (deep_labelled 1 2 1), Inr (deep_labelled 5 6 0)] \<and>
   keys_at ex_out_deep_relabelled [''x''] = {''pixels'', ''extra''} \<and>
   keys_at (deep_labelled 5 6 0) [''x''] = {''pixels''} \<and>
   keys_at (deep_labelled 5 6 0) [''x''] =
     keys_at ex_in_deep_relabelled [''x''] \<inter> keys_at ex_out_deep_relabelled [''x'']"
proof -
  have k: "keep_common_fields ex_in_deep_relabelled (element_spec ex_out_deep) = Inr ex_in_deep_graph"
    by (simp add: ex_defs)
  have m: "ds_map (format_in_ds (element_spec ex_out_deep)) ex_in_deep =
      Inr (MapDataset ex_in_deep_graph ex_in_deep)"
    "ds_map (format_out_ds (element_spec ex_in_deep)) ex_out_deep =
      Inr (MapDataset ex_out_deep_graph ex_out_deep)"
    by (simp_all add: ex_defs run_defs)
  have g: "set_label_to_one (placeholders [] (element_spec ex_in_deep)) = Inr ex_in_deep_relabelled"
    "set_label_to_zero (placeholders [] (element_spec ex_out_deep)) = Inr ex_out_deep_relabelled"
    by (simp_all add: ex_defs run_defs)
  have c: "concatenate ex_in_deep ex_out_deep = Inr ex_deep_composed"
    by (rule ex_deep_concatenate)
  have e: "elements ex_deep_composed = [Inr (deep_labelled 1 2 1), Inr (deep_labelled 5 6 0)]"
    by (rule ex_deep_elements)
  have "elements (MapDataset ex_in_deep_graph ex_in_deep) = [Inr (deep_labelled 1 2 1)]"
    "elements (MapDataset ex_out_deep_graph ex_out_deep) = [Inr (deep_labelled 5 6 0)]"
    by (simp_all add: ex_defs run_defs)
  with e have r: "Inr (deep_labelled 1 2 1) \<in> set (elements (MapDataset ex_in_deep_graph ex_in_deep))"
    "Inr (deep_labelled 5 6 0) \<in> set (elements (MapDataset ex_out_deep_graph ex_out_deep))"
    "Inr (deep_labelled 5 6 0) \<in> set (elements ex_deep_composed)"
    by simp_all
  have v: "keys_at ex_in_deep_relabelled [''x''] = {''pixels'', ''meta''}"
    "keys_at (element_spec ex_out_deep) [''x''] = {''pixels'', ''extra''}"
    "keys_at ex_in_deep_graph [''x''] = {''pixels''}"
    "keys_at ex_out_deep_relabelled [] = {''x'', ''y'', ''label''}"
    "keys_at (element_spec ex_in_deep) [] = {''x'', ''label''}"
    "keys_at (deep_labelled 5 6 0) [] = {''x'', ''label''}"
    "keys_at ex_out_deep_relabelled [''x''] = {''pixels'', ''extra''}"
    "keys_at (deep_labelled 5 6 0) [''x''] = {''pixels''}"
    by (simp_all add: ex_defs keys_at_def)
  note t = schema_intersection [where feature = ex_in_deep_relabelled
      and spec = "element_spec ex_out_deep" and g = ex_in_deep_graph
      and in_ds = ex_in_deep and out_ds = ex_out_deep
      and ?d1.0 = "MapDataset ex_in_deep_graph ex_in_deep"
      and ?d2.0 = "MapDataset ex_out_deep_graph ex_out_deep" and ds = ex_deep_composed]
  from t k have 1: "keys_at ex_in_deep_graph [''x''] =
     keys_at ex_in_deep_relabelled [''x''] \<inter> keys_at (element_spec ex_out_deep) [''x'']"
    by blast
  from t m(1) g(1) r(1) have 2: "keys_at (deep_labelled 1 2 1) [''x''] =
     keys_at ex_in_deep_relabelled [''x''] \<inter> keys_at (element_spec ex_out_deep) [''x'']"
    by (metis sum.inject(2))
  from t m(2) g(2) r(2) have 3: "keys_at (deep_labelled 5 6 0) [] =
     keys_at ex_out_deep_relabelled [] \<inter> keys_at (element_spec ex_in_deep) []"
    by (metis sum.inject(2))
  from t c g r(3) have 4: "keys_at (deep_labelled 5 6 0) [''x''] =
     keys_at ex_in_deep_relabelled [''x''] \<inter> keys_at ex_out_deep_relabelled [''x'']"
    by (metis sum.inject(2))
  from k m g c e r v 1 2 3 4 show ?thesis by blast
qed

text \<open>
  C4 (as amended). Where a path leads to a tensor in \<open>feature\<close> and to a dictionary in
  \<open>spec\<close>, \<^verbatim>\<open>_keep_common_fields\<close>, if it returns, keeps the tensor as it is; where it
  leads to a dictionary in \<open>feature\<close> and to a tensor in \<open>spec\<close>, it raises
  \<open>AttributeError\<close>. So two sources whose element specifications diverge in this way
  at some path cannot be composed: there are no composed records.
\<close>

theorem leaf_versus_mapping:
  "(keep_common_fields feature spec = Inr r \<and> lookup feature p = Some (Leaf t) \<and>
      lookup spec p = Some (Dict svs) \<longrightarrow> lookup r p = Some (Leaf t)) \<and>
   (lookup feature p = Some (Dict kvs) \<and> lookup spec p = Some (Leaf s) \<longrightarrow>
      keep_common_fields feature spec = Inl AttributeError) \<and>
   ((lookup (element_spec in_ds) q = Some (Leaf a) \<and> lookup (element_spec out_ds) q = Some (Dict bs)) \<or>
    (lookup (element_spec in_ds) q = Some (Dict as) \<and> lookup (element_spec out_ds) q = Some (Leaf b)) \<longrightarrow>
      (\<exists>e. concatenate in_ds out_ds = Inl e))"
proof (intro conjI impI)
  assume "keep_common_fields feature spec = Inr r \<and> lookup feature p = Some (Leaf t) \<and>
      lookup spec p = Some (Dict svs)"
  then have "keep_common_fields feature spec = Inr r" "lookup feature p = Some (Leaf t)"
    "lookup spec p = Some (Dict svs)" by simp_all
  then show "lookup r p = Some (Leaf t)"
    by (rule keep_common_fields_keeps_leaf)
next
  assume "lookup feature p = Some (Dict kvs) \<and> lookup spec p = Some (Leaf s)"
  then have "lookup feature p = Some (Dict kvs)" "lookup spec p = Some (Leaf s)" by simp_all
  then show "keep_common_fields feature spec = Inl AttributeError"
    by (rule keep_common_fields_mapping_vs_leaf)
next
  assume d: "(lookup (element_spec in_ds) q = Some (Leaf a) \<and> lookup (element_spec out_ds) q = Some (Dict bs)) \<or>
    (lookup (element_spec in_ds) q = Some (Dict as) \<and> lookup (element_spec out_ds) q = Some (Leaf b))"
  show "\<exists>e. concatenate in_ds out_ds = Inl e"
  proof (cases "concatenate in_ds out_ds")
    case (Inl e)
    then show ?thesis by blast
  next
    case (Inr ds)
    then obtain ga gb gi go where
      ga: "set_label_to_one (placeholders [] (element_spec in_ds)) = Inr ga" and
      gb: "set_label_to_zero (placeholders [] (element_spec out_ds)) = Inr gb" and
      gi: "keep_common_fields ga (element_spec out_ds) = Inr gi" and
      go: "keep_common_fields gb (element_spec in_ds) = Inr go"
      by (rule concatenate_parts)
    have sa: "skel (element_spec in_ds) = skel ga"
      using set_label_to_one_skel [OF ga] by (simp add: placeholders_skel)
    have sb: "skel (element_spec out_ds) = skel gb"
      using set_label_to_zero_skel [OF gb] by (simp add: placeholders_skel)
    from d show ?thesis
    proof
      assume l: "lookup (element_spec in_ds) q = Some (Leaf a) \<and>
        lookup (element_spec out_ds) q = Some (Dict bs)"
      with lookup_skel_Dict [OF sb] obtain us where us: "lookup gb q = Some (Dict us)" by blast
      from l have "lookup (element_spec in_ds) q = Some (Leaf a)" by simp
      with us have "keep_common_fields gb (element_spec in_ds) = Inl AttributeError"
        by (rule keep_common_fields_mapping_vs_leaf)
      with go show ?thesis by simp
    next
      assume l: "lookup (element_spec in_ds) q = Some (Dict as) \<and>
        lookup (element_spec out_ds) q = Some (Leaf b)"
      with lookup_skel_Dict [OF sa] obtain us where us: "lookup ga q = Some (Dict us)" by blast
      from l have "lookup (element_spec out_ds) q = Some (Leaf b)" by simp
      with us have "keep_common_fields ga (element_spec out_ds) = Inl AttributeError"
        by (rule keep_common_fields_mapping_vs_leaf)
      with gi show ?thesis by simp
    qed
  qed
qed

text \<open>The theorem at \<open>ex_in\<close> and \<open>ex_out_nested\<close>.\<close>

theorem leaf_versus_mapping_witness:
  "keep_common_fields (labelled 1 2 7) (element_spec ex_out_nested) = Inr (labelled 1 2 7) \<and>
   lookup (labelled 1 2 7) [''x''] = Some (Leaf (img 1 2)) \<and>
   lookup (element_spec ex_out_nested) [''x''] = Some (Dict [(''pixels'', Leaf image_spec)]) \<and>
   lookup (element_spec ex_in) [''x''] = Some (Leaf image_spec) \<and>
   keep_common_fields (element_spec ex_out_nested) (element_spec ex_in) = Inl AttributeError \<and>
   (\<exists>e. concatenate ex_in ex_out_nested = Inl e) \<and>
   (\<exists>e. concatenate ex_out_nested ex_in = Inl e)"
proof -
  have 1: "keep_common_fields (labelled 1 2 7) (element_spec ex_out_nested) = Inr (labelled 1 2 7)"
    "lookup (labelled 1 2 7) [''x''] = Some (Leaf (img 1 2))"
    "lookup (element_spec ex_out_nested) [''x''] = Some (Dict [(''pixels'', Leaf image_spec)])"
    "lookup (element_spec ex_in) [''x''] = Some (Leaf image_spec)"
    by (simp_all add: ex_defs)
  note i1 = leaf_versus_mapping [where feature = "labelled 1 2 7"
      and spec = "element_spec ex_out_nested" and r = "labelled 1 2 7" and p = "[''x'']"
      and t = "img 1 2" and svs = "[(''pixels'', Leaf image_spec)]" and kvs = "[]"
      and s = image_spec and in_ds = ex_in and out_ds = ex_out_nested and q = "[''x'']"
      and a = image_spec and bs = "[(''pixels'', Leaf image_spec)]" and as = "[]"
      and b = image_spec]
  note i2 = leaf_versus_mapping [where feature = "element_spec ex_out_nested"
      and spec = "element_spec ex_in" and r = "Leaf image_spec" and p = "[''x'']"
      and t = image_spec and svs = "[]" and kvs = "[(''pixels'', Leaf image_spec)]"
      and s = image_spec and in_ds = ex_out_nested and out_ds = ex_in and q = "[''x'']"
      and a = image_spec and bs = "[]" and as = "[(''pixels'', Leaf image_spec)]"
      and b = image_spec]
  from i1 1 have 3: "\<exists>e. concatenate ex_in ex_out_nested = Inl e" by blast
  from i2 1 have 2: "keep_common_fields (element_spec ex_out_nested) (element_spec ex_in) = Inl AttributeError"
    and 4: "\<exists>e. concatenate ex_out_nested ex_in = Inl e" by blast+
  from 1 2 3 4 show ?thesis by blast
qed

text \<open>
  The field \<open>x\<close> is a tensor in \<open>ex_in\<close> and a dictionary in \<open>ex_out_nested\<close>. The
  filter keeps it in a record of \<open>ex_in\<close>, and the composition fails either way round.
\<close>

theorem leaf_versus_mapping_counterexample:
  "lookup (element_spec ex_in) [''x''] = Some (Leaf image_spec) \<and>
   lookup (element_spec ex_out_nested) [''x''] = Some (Dict [(''pixels'', Leaf image_spec)]) \<and>
   keep_common_fields (Dict [(''x'', Leaf (img 1 2)), (''label'', Leaf (scalar 7))])
       (element_spec ex_out_nested)
     = Inr (Dict [(''x'', Leaf (img 1 2)), (''label'', Leaf (scalar 7))]) \<and>
   concatenate ex_in ex_out_nested = Inl AttributeError \<and>
   concatenate ex_out_nested ex_in = Inl AttributeError"
  by (simp add: ex_defs run_defs)

text \<open>
  C5. Whenever composing succeeds, the composed stream is the stream of the
  in-distribution source under the traced \<open>format_in_ds\<close>, followed by that of the
  out-of-distribution source under the traced \<open>format_out_ds\<close>. The iterator yields
  exactly this stream, and after any \<open>n\<close> pulls, \<open>n\<close> at most the length of the first
  part, the second dataset of the concatenation is still the whole mapped
  out-of-distribution source: nothing has been pulled from it. Over well-formed sources
  every pull of the composed stream is a record.
\<close>

theorem order_preservation:
  assumes "concatenate in_ds out_ds = Inr ds"
  shows "\<exists>gi go.
    format_in_ds (element_spec out_ds) (placeholders [] (element_spec in_ds)) = Inr gi \<and>
    format_out_ds (element_spec in_ds) (placeholders [] (element_spec out_ds)) = Inr go \<and>
    elements ds = map (apply_graph gi) (elements in_ds) @ map (apply_graph go) (elements out_ds) \<and>
    fst (take_n (length (elements ds)) ds) = elements ds \<and>
    (\<forall>n. n \<le> length (elements in_ds) \<longrightarrow>
       take_n n ds =
         (take n (map (apply_graph gi) (elements in_ds)),
          ConcatenateDataset (element_spec ds)
            (MapDataset gi (snd (take_n n in_ds))) (MapDataset go out_ds))) \<and>
    (well_formed in_ds \<and> well_formed out_ds \<longrightarrow> (\<forall>q\<in>set (elements ds). \<exists>r. q = Inr r))"
proof -
  from assms obtain gi go s where
    gi: "format_in_ds (element_spec out_ds) (placeholders [] (element_spec in_ds)) = Inr gi" and
    go: "format_out_ds (element_spec in_ds) (placeholders [] (element_spec out_ds)) = Inr go" and
    ds: "ds = ConcatenateDataset s (MapDataset gi in_ds) (MapDataset go out_ds)"
    by (auto simp: concatenate_Inr)
  have el: "elements ds = map (apply_graph gi) (elements in_ds) @ map (apply_graph go) (elements out_ds)"
    by (simp add: ds)
  have all: "fst (take_n (length (elements ds)) ds) = elements ds"
    by (simp add: take_n_elements)
  have lazy: "take_n n ds =
      (take n (map (apply_graph gi) (elements in_ds)),
       ConcatenateDataset (element_spec ds) (MapDataset gi (snd (take_n n in_ds))) (MapDataset go out_ds))"
    if "n \<le> length (elements in_ds)" for n
  proof -
    from that have "n \<le> length (elements (MapDataset gi in_ds))" by simp
    from take_n_ConcatenateDataset [OF this, of s "MapDataset go out_ds"]
    have "take_n n ds =
      (fst (take_n n (MapDataset gi in_ds)),
       ConcatenateDataset s (snd (take_n n (MapDataset gi in_ds))) (MapDataset go out_ds))"
      by (simp only: ds)
    moreover have "fst (take_n n (MapDataset gi in_ds)) = take n (map (apply_graph gi) (elements in_ds))"
      using take_n_elements [of n "MapDataset gi in_ds"] by simp
    moreover have "snd (take_n n (MapDataset gi in_ds)) = MapDataset gi (snd (take_n n in_ds))"
      by (simp only: take_n_MapDataset snd_conv)
    moreover have "element_spec ds = s" by (simp add: ds)
    ultimately show ?thesis by simp
  qed
  have total: "well_formed in_ds \<and> well_formed out_ds \<longrightarrow>
      (\<forall>q\<in>set (elements ds). \<exists>r. q = Inr r)"
    using composed_stream_total [OF _ _ assms] by blast
  from gi go el all lazy total show ?thesis by blast
qed

text \<open>The theorem at the example composition.\<close>

theorem order_preservation_witness:
  "concatenate ex_in ex_out = Inr ex_composed \<and>
   format_in_ds (element_spec ex_out) (placeholders [] (element_spec ex_in)) = Inr ex_in_graph \<and>
   format_out_ds (element_spec ex_in) (placeholders [] (element_spec ex_out)) = Inr ex_out_graph \<and>
   elements ex_composed =
     map (apply_graph ex_in_graph) (elements ex_in) @ map (apply_graph ex_out_graph) (elements ex_out) \<and>
   elements ex_composed =
     [Inr (labelled 1 2 1), Inr (labelled 3 4 1),
      Inr (labelled 5 6 0), Inr (labelled 7 8 0), Inr (labelled 9 0 0)] \<and>
   fst (take_n (length (elements ex_composed)) ex_composed) = elements ex_composed \<and>
   well_formed ex_in \<and> well_formed ex_out \<and>
   (2::nat) \<le> length (elements ex_in) \<and>
   take_n 2 ex_composed =
     (take 2 (map (apply_graph ex_in_graph) (elements ex_in)),
      ConcatenateDataset (element_spec ex_composed)
        (MapDataset ex_in_graph (snd (take_n 2 ex_in))) (MapDataset ex_out_graph ex_out))"
proof -
  have c: "concatenate ex_in ex_out = Inr ex_composed" by (rule ex_concatenate)
  have g: "format_in_ds (element_spec ex_out) (placeholders [] (element_spec ex_in)) = Inr ex_in_graph"
    "format_out_ds (element_spec ex_in) (placeholders [] (element_spec ex_out)) = Inr ex_out_graph"
    by (simp_all add: ex_defs run_defs)
  have n: "(2::nat) \<le> length (elements ex_in)" by (simp add: ex_defs)
  have e: "elements ex_composed =
     [Inr (labelled 1 2 1), Inr (labelled 3 4 1),
      Inr (labelled 5 6 0), Inr (labelled 7 8 0), Inr (labelled 9 0 0)]"
    by (simp add: ex_elements labelled_def)
  from order_preservation [OF c] obtain gi go where
    o: "format_in_ds (element_spec ex_out) (placeholders [] (element_spec ex_in)) = Inr gi"
      "format_out_ds (element_spec ex_in) (placeholders [] (element_spec ex_out)) = Inr go"
      "elements ex_composed = map (apply_graph gi) (elements ex_in) @ map (apply_graph go) (elements ex_out)"
      "fst (take_n (length (elements ex_composed)) ex_composed) = elements ex_composed"
      "\<forall>n. n \<le> length (elements ex_in) \<longrightarrow>
         take_n n ex_composed =
           (take n (map (apply_graph gi) (elements ex_in)),
            ConcatenateDataset (element_spec ex_composed)
              (MapDataset gi (snd (take_n n ex_in))) (MapDataset go ex_out))"
      "well_formed ex_in \<and> well_formed ex_out \<longrightarrow>
         (\<forall>q\<in>set (elements ex_composed). \<exists>r. q = Inr r)"
    by blast
  from o(1,2) g have eq: "gi = ex_in_graph" "go = ex_out_graph" by simp_all
  from o(5) n have "take_n 2 ex_composed =
     (take 2 (map (apply_graph gi) (elements ex_in)),
      ConcatenateDataset (element_spec ex_composed)
        (MapDataset gi (snd (take_n 2 ex_in))) (MapDataset go ex_out))"
    by blast
  with c g n e o(3,4) ex_well_formed show ?thesis unfolding eq by blast
qed

text \<open>
  C6. Whenever composing succeeds, every record among the first \<open>length (elements in_ds)\<close>
  of the composed stream has a tensor under \<open>label\<close> whose every entry is 1, and every
  later record one whose every entry is 0.
\<close>

theorem label_correctness:
  assumes "concatenate in_ds out_ds = Inr ds"
  shows "length (elements ds) = length (elements in_ds) + length (elements out_ds) \<and>
    (\<forall>i r. i < length (elements in_ds) \<and> elements ds ! i = Inr r \<longrightarrow>
       (\<exists>t. getitem r ''label'' = Inr (Leaf t) \<and> elems t = replicate (prod_list (shape t)) 1)) \<and>
    (\<forall>i r. length (elements in_ds) \<le> i \<and> i < length (elements ds) \<and> elements ds ! i = Inr r \<longrightarrow>
       (\<exists>t. getitem r ''label'' = Inr (Leaf t) \<and> elems t = replicate (prod_list (shape t)) 0))"
proof -
  from assms obtain gi go s li lo where
    ds: "ds = ConcatenateDataset s (MapDataset gi in_ds) (MapDataset go out_ds)" and
    li: "getitem gi ''label'' = Inr (Leaf (OnesLike li))" and
    lo: "getitem go ''label'' = Inr (Leaf (ZerosLike lo))"
    by (rule composed_labels)
  let ?n = "length (elements in_ds)"
  have len: "length (elements ds) = ?n + length (elements out_ds)"
    by (simp add: ds)
  have ones: "\<exists>t. getitem r ''label'' = Inr (Leaf t) \<and> elems t = replicate (prod_list (shape t)) 1"
    if "i < ?n" "elements ds ! i = Inr r" for i r
  proof -
    from that have "apply_graph gi (elements in_ds ! i) = Inr r"
      by (simp add: ds nth_append)
    from pull_label_ones [OF this li] show ?thesis .
  qed
  have zeros: "\<exists>t. getitem r ''label'' = Inr (Leaf t) \<and> elems t = replicate (prod_list (shape t)) 0"
    if "?n \<le> i" "i < length (elements ds)" "elements ds ! i = Inr r" for i r
  proof -
    from that len have "apply_graph go (elements out_ds ! (i - ?n)) = Inr r"
      by (simp add: ds nth_append)
    from pull_label_zeros [OF this lo] show ?thesis .
  qed
  from len ones zeros show ?thesis by blast
qed

text \<open>The theorem at the example composition.\<close>

theorem label_correctness_witness:
  "concatenate ex_in ex_out = Inr ex_composed \<and>
   length (elements ex_in) = 2 \<and> length (elements ex_composed) = 5 \<and>
   elements ex_composed ! 1 = Inr (labelled 3 4 1) \<and>
   elements ex_composed ! 2 = Inr (labelled 5 6 0) \<and>
   (\<exists>t. getitem (labelled 3 4 1) ''label'' = Inr (Leaf t) \<and>
        elems t = replicate (prod_list (shape t)) 1) \<and>
   (\<exists>t. getitem (labelled 5 6 0) ''label'' = Inr (Leaf t) \<and>
        elems t = replicate (prod_list (shape t)) 0)"
proof -
  have c: "concatenate ex_in ex_out = Inr ex_composed" by (rule ex_concatenate)
  have n: "length (elements ex_in) = 2" "length (elements ex_composed) = 5"
    by (simp add: ex_defs) (simp add: ex_elements)
  have e: "elements ex_composed ! 1 = Inr (labelled 3 4 1)"
    "elements ex_composed ! 2 = Inr (labelled 5 6 0)"
    by (simp_all add: ex_elements labelled_def)
  from n have i: "(1::nat) < length (elements ex_in)" "length (elements ex_in) \<le> (2::nat)"
    "(2::nat) < length (elements ex_composed)" by simp_all
  from label_correctness [OF c] e i
  have "\<exists>t. getitem (labelled 3 4 1) ''label'' = Inr (Leaf t) \<and>
        elems t = replicate (prod_list (shape t)) 1"
    and "\<exists>t. getitem (labelled 5 6 0) ''label'' = Inr (Leaf t) \<and>
        elems t = replicate (prod_list (shape t)) 0"
    by blast+
  with c n e show ?thesis by blast
qed

text \<open>
  C7. Every \<^verbatim>\<open>OodDetectionDataset\<close>, whichever datasets it binds, reports two classes.
\<close>

theorem info_num_classes: "num_classes (info self) = 2"
  by (simp add: info_def)

text \<open>
  C8. Two runs of \<open>add_batch\<close> from the empty state, over any two lists of batches
  that are all accepted and hold the same examples (as a multiset: in any order, under
  any grouping into batches), end in states with the same \<open>result\<close>. One of the two
  lists may be the single batch of all the examples. The arithmetic is exact.
\<close>

theorem batch_invariance:
  assumes "add_batches tol m bs empty_state = Inr st"
    and "add_batches tol m bs' empty_state = Inr st'"
    and "mset (concat (map batch_examples bs)) = mset (concat (map batch_examples bs'))"
  shows "result st = result st'"
proof -
  let ?xs = "concat (map batch_examples bs)" and ?ys = "concat (map batch_examples bs')"
  note a = add_batches_from_empty [OF assms(1)] and b = add_batches_from_empty [OF assms(2)]
  from assms(3) have len: "length ?xs = length ?ys" by (rule mset_eq_length)
  with a(1) b(1) have n: "num_examples st = num_examples st'" by simp
  show ?thesis
  proof (cases "num_examples st = 0")
    case True
    with n show ?thesis by (simp add: result_def average_def)
  next
    case False
    with a(1) have "bs \<noteq> []" by auto
    moreover from False n b(1) have "bs' \<noteq> []" by auto
    ultimately have "pair_sums st = pair_sums st'"
      using a(2) b(2) contribution_mset [OF assms(3)] by simp
    with n show ?thesis by (simp add: result_def average_def)
  qed
qed

text \<open>
  The theorem at two batches of one example each, in either order, against the one batch
  of both examples.
\<close>

theorem batch_invariance_witness:
  "\<not> isl (add_batches 0 2 [ex_batch_first, ex_batch_second] empty_state) \<and>
   \<not> isl (add_batches 0 2 [ex_batch_second, ex_batch_first] empty_state) \<and>
   \<not> isl (add_batches 0 2 [ex_batch_both] empty_state) \<and>
   mset (concat (map batch_examples [ex_batch_first, ex_batch_second])) =
     mset (concat (map batch_examples [ex_batch_both])) \<and>
   mset (concat (map batch_examples [ex_batch_second, ex_batch_first])) =
     mset (concat (map batch_examples [ex_batch_both])) \<and>
   num_examples (projr (add_batches 0 2 [ex_batch_both] empty_state)) = 2 \<and>
   result (projr (add_batches 0 2 [ex_batch_first, ex_batch_second] empty_state)) =
     result (projr (add_batches 0 2 [ex_batch_both] empty_state)) \<and>
   result (projr (add_batches 0 2 [ex_batch_second, ex_batch_first] empty_state)) =
     result (projr (add_batches 0 2 [ex_batch_both] empty_state))"
proof -
  note acc = ex_batches_accepted
  have a: "add_batches 0 2 [ex_batch_first, ex_batch_second] empty_state =
      Inr (projr (add_batches 0 2 [ex_batch_first, ex_batch_second] empty_state))"
    and b: "add_batches 0 2 [ex_batch_second, ex_batch_first] empty_state =
      Inr (projr (add_batches 0 2 [ex_batch_second, ex_batch_first] empty_state))"
    and c: "add_batches 0 2 [ex_batch_both] empty_state =
      Inr (projr (add_batches 0 2 [ex_batch_both] empty_state))"
    using acc by (simp_all add: sum.collapse(2))
  have m1: "mset (concat (map batch_examples [ex_batch_first, ex_batch_second])) =
     mset (concat (map batch_examples [ex_batch_both]))"
    and m2: "mset (concat (map batch_examples [ex_batch_second, ex_batch_first])) =
     mset (concat (map batch_examples [ex_batch_both]))"
    by (simp_all add: ex_batch_examples)
  have n: "num_examples (projr (add_batches 0 2 [ex_batch_both] empty_state)) = 2"
    by (simp add: add_batch_def ex_batch_valid Let_def ex_batch_examples empty_state_def)
  from batch_invariance [OF a c m1] batch_invariance [OF b c m2] acc m1 m2 n
  show ?thesis by blast
qed

text \<open>
  C9. In every state, so after any sequence of \<open>add_batch\<close> calls, \<open>result\<close> has
  exactly the three keys \<open>disagreement\<close>, \<open>average_kl\<close> and \<open>cosine_similarity\<close>, each
  with a value of shape \<open>[]\<close> holding one entry.
\<close>

theorem result_keys:
  "map fst (result st) = [''disagreement'', ''average_kl'', ''cosine_similarity''] \<and>
   map (\<lambda>(k, v). shape v) (result st) = [[], [], []] \<and>
   map (\<lambda>(k, v). length (elems v)) (result st) = [1, 1, 1]"
  by (simp add: result_def scalar_value_def)

text \<open>
  C10. \<^verbatim>\<open>_set_label_to_one\<close> and \<^verbatim>\<open>_set_label_to_zero\<close> change the \<open>label\<close> entry
  only. When either returns, every other field of the result is the field of the
  argument, the argument had a tensor under \<open>label\<close>, and the new label is
  \<^verbatim>\<open>ones_like\<close> (\<^verbatim>\<open>zeros_like\<close>) of it: of the same declared shape and type, and on
  every element of the same shape and type as the label the element had.
\<close>

theorem set_label_frame:
  "(set_label_to_one feature = Inr feature' \<longrightarrow>
      (\<forall>k. k \<noteq> ''label'' \<longrightarrow> getitem feature' k = getitem feature k) \<and>
      (\<exists>l. getitem feature ''label'' = Inr (Leaf l) \<and>
           getitem feature' ''label'' = Inr (Leaf (OnesLike l)) \<and>
           sym_spec (OnesLike l) = sym_spec l \<and>
           (\<forall>x t'. eval x (OnesLike l) = Inr t' \<longrightarrow>
              (\<exists>t. eval x l = Inr t \<and> shape t' = shape t \<and> dtype t' = dtype t)))) \<and>
   (set_label_to_zero feature = Inr feature' \<longrightarrow>
      (\<forall>k. k \<noteq> ''label'' \<longrightarrow> getitem feature' k = getitem feature k) \<and>
      (\<exists>l. getitem feature ''label'' = Inr (Leaf l) \<and>
           getitem feature' ''label'' = Inr (Leaf (ZerosLike l)) \<and>
           sym_spec (ZerosLike l) = sym_spec l \<and>
           (\<forall>x t'. eval x (ZerosLike l) = Inr t' \<longrightarrow>
              (\<exists>t. eval x l = Inr t \<and> shape t' = shape t \<and> dtype t' = dtype t))))"
proof (intro conjI impI)
  assume "set_label_to_one feature = Inr feature'"
  then obtain kvs l where f: "feature = Dict kvs" "map_of kvs ''label'' = Some (Leaf l)"
    "feature' = Dict (AList.update ''label'' (Leaf (OnesLike l)) kvs)"
    by (auto simp: set_label_to_one_Inr)
  show "\<forall>k. k \<noteq> ''label'' \<longrightarrow> getitem feature' k = getitem feature k"
    using f by (simp add: update_conv')
  have "\<forall>x t'. eval x (OnesLike l) = Inr t' \<longrightarrow>
          (\<exists>t. eval x l = Inr t \<and> shape t' = shape t \<and> dtype t' = dtype t)"
    by (auto split: sum.splits)
  then show "\<exists>l. getitem feature ''label'' = Inr (Leaf l) \<and>
       getitem feature' ''label'' = Inr (Leaf (OnesLike l)) \<and>
       sym_spec (OnesLike l) = sym_spec l \<and>
       (\<forall>x t'. eval x (OnesLike l) = Inr t' \<longrightarrow>
          (\<exists>t. eval x l = Inr t \<and> shape t' = shape t \<and> dtype t' = dtype t))"
    using f by (intro exI[of _ l]) (simp add: update_conv')
next
  assume "set_label_to_zero feature = Inr feature'"
  then obtain kvs l where f: "feature = Dict kvs" "map_of kvs ''label'' = Some (Leaf l)"
    "feature' = Dict (AList.update ''label'' (Leaf (ZerosLike l)) kvs)"
    by (auto simp: set_label_to_zero_Inr)
  show "\<forall>k. k \<noteq> ''label'' \<longrightarrow> getitem feature' k = getitem feature k"
    using f by (simp add: update_conv')
  have "\<forall>x t'. eval x (ZerosLike l) = Inr t' \<longrightarrow>
          (\<exists>t. eval x l = Inr t \<and> shape t' = shape t \<and> dtype t' = dtype t)"
    by (auto split: sum.splits)
  then show "\<exists>l. getitem feature ''label'' = Inr (Leaf l) \<and>
       getitem feature' ''label'' = Inr (Leaf (ZerosLike l)) \<and>
       sym_spec (ZerosLike l) = sym_spec l \<and>
       (\<forall>x t'. eval x (ZerosLike l) = Inr t' \<longrightarrow>
          (\<exists>t. eval x l = Inr t \<and> shape t' = shape t \<and> dtype t' = dtype t))"
    using f by (intro exI[of _ l]) (simp add: update_conv')
qed

theorem set_label_frame_witness:
  "set_label_to_one (Dict [(''x'', Leaf (Component [''x''] \<lparr>spec_shape = Some [Some 2], spec_dtype = DT_uint8\<rparr>)),
                           (''label'', Leaf (Component [''label''] \<lparr>spec_shape = Some [], spec_dtype = DT_int64\<rparr>))])
     = Inr (Dict [(''x'', Leaf (Component [''x''] \<lparr>spec_shape = Some [Some 2], spec_dtype = DT_uint8\<rparr>)),
                  (''label'', Leaf (OnesLike (Component [''label''] \<lparr>spec_shape = Some [], spec_dtype = DT_int64\<rparr>)))]) \<and>
   set_label_to_zero (Dict [(''x'', Leaf (Component [''x''] \<lparr>spec_shape = Some [Some 2], spec_dtype = DT_uint8\<rparr>)),
                           (''label'', Leaf (Component [''label''] \<lparr>spec_shape = Some [], spec_dtype = DT_int64\<rparr>))])
     = Inr (Dict [(''x'', Leaf (Component [''x''] \<lparr>spec_shape = Some [Some 2], spec_dtype = DT_uint8\<rparr>)),
                  (''label'', Leaf (ZerosLike (Component [''label''] \<lparr>spec_shape = Some [], spec_dtype = DT_int64\<rparr>)))]) \<and>
   eval (Dict [(''x'', Leaf \<lparr>shape = [2], dtype = DT_uint8, elems = [7, 9 :: int]\<rparr>),
               (''label'', Leaf \<lparr>shape = [], dtype = DT_int64, elems = [5]\<rparr>)])
        (OnesLike (Component [''label''] \<lparr>spec_shape = Some [], spec_dtype = DT_int64\<rparr>))
     = Inr \<lparr>shape = [], dtype = DT_int64, elems = [1]\<rparr> \<and>
   eval (Dict [(''x'', Leaf \<lparr>shape = [2], dtype = DT_uint8, elems = [7, 9 :: int]\<rparr>),
               (''label'', Leaf \<lparr>shape = [], dtype = DT_int64, elems = [5]\<rparr>)])
        (ZerosLike (Component [''label''] \<lparr>spec_shape = Some [], spec_dtype = DT_int64\<rparr>))
     = Inr \<lparr>shape = [], dtype = DT_int64, elems = [0]\<rparr>"
  using
    set_label_frame [of
      "Dict [(''x'', Leaf (Component [''x''] \<lparr>spec_shape = Some [Some 2], spec_dtype = DT_uint8\<rparr>)),
             (''label'', Leaf (Component [''label''] \<lparr>spec_shape = Some [], spec_dtype = DT_int64\<rparr>))]"
      "Dict [(''x'', Leaf (Component [''x''] \<lparr>spec_shape = Some [Some 2], spec_dtype = DT_uint8\<rparr>)),
             (''label'', Leaf (OnesLike (Component [''label''] \<lparr>spec_shape = Some [], spec_dtype = DT_int64\<rparr>)))]"]
  by (simp add: set_label_to_one_def set_label_to_zero_def ones_like_def zeros_like_def)

end
